theory Spec2Isabelle
  imports Main "HOL-Library.Word"
begin

section \<open>Data model of debugger.cpp\<close>

text \<open>
  Windows scalar types. A \<open>DWORD\<close> is a 32-bit word; process and thread identifiers,
  exit codes and exception codes are \<open>DWORD\<close>s (\<open>NTSTATUS\<close> is the same 32 bits read
  as signed, and every test the code makes on it is an equality test, so the bit
  pattern decides). A \<open>HANDLE\<close> and a remote address are opaque numbers; the null
  handle is 0.
\<close>

type_synonym DWORD = "32 word"
type_synonym HANDLE = nat
type_synonym LPVOID = nat
type_synonym byte = "8 word"

abbreviation (input) NULL :: HANDLE where
  "NULL \<equiv> 0"

text \<open>Constants of the platform headers (ntstatus.h): not part of this repository.\<close>

definition STATUS_BREAKPOINT :: DWORD where
  "STATUS_BREAKPOINT = 0x80000003"

definition STATUS_WX86_BREAKPOINT :: DWORD where
  "STATUS_WX86_BREAKPOINT = 0x4000001F"

text \<open>The two values of the continuation status handed to \<open>ContinueDebugEvent\<close>.\<close>

datatype continue_status = DBG_CONTINUE | DBG_EXCEPTION_NOT_HANDLED

subsection \<open>\<open>std::map\<close> as a key-ordered association list\<close>

text \<open>
  \<open>std::map<DWORD, T>\<close> iterates in ascending key order and holds one node per key.
  \<open>map_subscript d k m\<close> is the map after \<open>m[k]\<close>: a node with the value-initialised
  \<open>d\<close> is inserted when the key is absent, and nothing changes otherwise.
  \<open>map_store k v m\<close> writes \<open>v\<close> to the node of \<open>k\<close> (creating it in key order when
  absent), \<open>map_at d k m\<close> reads the node that \<open>m[k]\<close> refers to, and \<open>map_erase\<close> is
  \<open>m.erase(k)\<close>.
\<close>

fun map_store :: "'k::linorder \<Rightarrow> 'v \<Rightarrow> ('k \<times> 'v) list \<Rightarrow> ('k \<times> 'v) list" where
  "map_store k v [] = [(k, v)]"
| "map_store k v (node # m) =
     (if k < fst node then (k, v) # node # m
      else if k = fst node then (k, v) # m
      else node # map_store k v m)"

definition map_at :: "'v \<Rightarrow> 'k \<Rightarrow> ('k \<times> 'v) list \<Rightarrow> 'v" where
  "map_at d k m = (case map_of m k of Some v \<Rightarrow> v | None \<Rightarrow> d)"

definition map_subscript :: "'v \<Rightarrow> 'k::linorder \<Rightarrow> ('k \<times> 'v) list \<Rightarrow> ('k \<times> 'v) list" where
  "map_subscript d k m = map_store k (map_at d k m) m"

definition map_erase :: "'k \<Rightarrow> ('k \<times> 'v) list \<Rightarrow> ('k \<times> 'v) list" where
  "map_erase k m = filter (\<lambda>node. fst node \<noteq> k) m"

subsection \<open>The registry\<close>

record THREAD_INFO =
  hThread :: HANDLE

type_synonym THREAD_INFO_LIST = "(DWORD \<times> THREAD_INFO) list"

record PROCESS_INFO =
  hProcess :: HANDLE
  Threads :: THREAD_INFO_LIST

type_synonym PROCESS_INFO_LIST = "(DWORD \<times> PROCESS_INFO) list"

text \<open>What \<open>operator[]\<close> inserts for an absent key: a value-initialised struct.\<close>

definition new_THREAD_INFO :: THREAD_INFO where
  "new_THREAD_INFO = \<lparr>hThread = NULL\<rparr>"

definition new_PROCESS_INFO :: PROCESS_INFO where
  "new_PROCESS_INFO = \<lparr>hProcess = NULL, Threads = []\<rparr>"

subsection \<open>Calls to the operating system and to the other modules\<close>

text \<open>
  The external calls the code makes, in the order it makes them. The log calls
  (\<open>lprintf\<close>, \<open>OutputDebug\<close>) keep their format string, line terminator
  included, and not the values printed. Calls that only read (\<open>SymGetOptions\<close>,
  \<open>IsWow64Process\<close>, \<open>GetLastError\<close>) are not recorded; what they return is among
  the answers below where the code depends on it. \<open>DumpStack\<close> carries
  the thread handle as an option: \<open>None\<close> stands for the indeterminate value read
  through a pointer that was never assigned or whose node has been erased.
\<close>

datatype effect =
    Lprintf string
  | OutputDebug string
  | SetEvent HANDLE
  | CloseHandle HANDLE
  | SymRefreshModuleList HANDLE
  | DumpException HANDLE DWORD
  | DumpStack HANDLE "HANDLE option"
  | TerminateProcess HANDLE DWORD
  | SymSetOptions DWORD
  | InitializeSym HANDLE
  | SymRegisterCallback64 HANDLE
  | SymLoadModuleEx HANDLE HANDLE LPVOID
  | SymCleanup HANDLE
  | SymUnloadModule64 HANDLE LPVOID
  | ReadProcessMemory HANDLE LPVOID nat
  | Fputs "byte list option"
  | ContinueDebugEvent DWORD DWORD continue_status

text \<open>
  The ways a handler ends the host program instead of returning: \<open>exit (EXIT_FAILURE)\<close>,
  a failed \<open>assert\<close>, and, where the assertions are compiled out, the write past the
  end of the buffer that the second assertion of \<open>readProcessString\<close> guards.
\<close>

datatype fatal = ExitFailure | AssertionFailed | BufferOverrun

section \<open>readProcessString\<close>

text \<open>
  The buffer returned by \<open>malloc (nSize + 1)\<close> holds indeterminate bytes (\<open>None\<close>)
  until written; the allocation is taken to succeed, as the code takes it.
  The answer of \<open>ReadProcessMemory\<close> is its return value together with the bytes it
  copied, whose number is \<open>NumberOfBytesRead\<close>. The result \<open>Inl\<close> is the case that the
  assertion guards, more bytes reported than requested: the assertion fails or,
  where it is compiled out, the terminator is written past the end of the buffer.
\<close>

type_synonym buffer = "byte option list"

definition copy_in :: "byte list \<Rightarrow> buffer \<Rightarrow> buffer" where
  "copy_in bytes buf = map Some (take (length buf) bytes) @ drop (length bytes) buf"

definition readProcessString ::
  "bool \<times> byte list \<Rightarrow> HANDLE \<Rightarrow> LPVOID \<Rightarrow> nat \<Rightarrow> fatal + (effect list \<times> buffer)" where
  "readProcessString answer hProc lpBaseAddress nSize =
     (let lpszBuffer = replicate (nSize + 1) None;
          NumberOfBytesRead = length (snd answer);
          lpszBuffer = copy_in (snd answer) lpszBuffer;
          lpszBuffer = (if \<not> fst answer then lpszBuffer[0 := Some 0] else lpszBuffer)
      in if \<not> NumberOfBytesRead \<le> nSize then Inl AssertionFailed
         else Inr ([ReadProcessMemory hProc lpBaseAddress nSize],
                   lpszBuffer[NumberOfBytesRead := Some 0]))"

text \<open>
  Reading a buffer as a C string, as \<open>fputs\<close> does: the bytes before the first
  zero byte. \<open>None\<close> when the scan meets an indeterminate byte or the end of the
  buffer first.
\<close>

fun c_string :: "buffer \<Rightarrow> byte list option" where
  "c_string [] = None"
| "c_string (None # buf) = None"
| "c_string (Some b # buf) =
     (if b = 0 then Some [] else map_option ((#) b) (c_string buf))"

section \<open>The session: options, notifications, state\<close>

text \<open>
  The fields of \<open>DebugOptions\<close> that \<open>DebugMainLoop\<close> reads (the struct is declared
  in debugger.h).
\<close>

record DebugOptions =
  breakpoint_flag :: bool
  verbose_flag :: bool
  debug_flag :: bool
  first_chance :: bool
  hEvent :: HANDLE

text \<open>
  \<open>DEBUG_EVENT\<close>: the identifiers every notification carries and the member of the
  union \<open>u\<close> that \<open>dwDebugEventCode\<close> selects. The fields are those the code reads:
  \<open>Exception ExceptionCode dwFirstChance\<close>, \<open>CreateThread hThread\<close>,
  \<open>CreateProcessInfo hFile hProcess hThread lpBaseOfImage\<close>, \<open>ExitThread dwExitCode\<close>,
  \<open>ExitProcess dwExitCode\<close>, \<open>LoadDll hFile lpBaseOfDll\<close>, \<open>UnloadDll lpBaseOfDll\<close>,
  \<open>DebugString lpDebugStringData fUnicode nDebugStringLength\<close>, \<open>Rip\<close>, and
  \<open>Unrecognized dwDebugEventCode\<close> for the \<open>default\<close> label.
\<close>

datatype event_info =
    Exception DWORD DWORD
  | CreateThread HANDLE
  | CreateProcessInfo HANDLE HANDLE HANDLE LPVOID
  | ExitThread DWORD
  | ExitProcess DWORD
  | LoadDll HANDLE LPVOID
  | UnloadDll LPVOID
  | DebugString LPVOID "16 word" "16 word"
  | Rip
  | Unrecognized DWORD

record DEBUG_EVENT =
  dwProcessId :: DWORD
  dwThreadId :: DWORD
  u :: event_info

text \<open>
  What the operating system and the symbol module answer while one notification is
  handled: the current symbol options, whether the target runs under WOW64 (\<open>False\<close>
  in a 32-bit build, where the query is compiled out), whether \<open>InitializeSym\<close>,
  \<open>SymLoadModuleEx\<close> and \<open>SymCleanup\<close> succeed, and the answer of
  \<open>ReadProcessMemory\<close>. With them goes the one property of the build that the
  handlers depend on: whether \<open>NDEBUG\<close> is defined, which compiles every \<open>assert\<close>
  out.
\<close>

record answers =
  NDEBUG :: bool
  SymGetOptions_value :: DWORD
  bWow64 :: bool
  InitializeSym_ok :: bool
  SymLoadModuleEx_ok :: bool
  SymCleanup_ok :: bool
  ReadProcessMemory_answer :: "bool \<times> byte list"

text \<open>
  \<open>pThreadInfo\<close> points into the registry: at the \<open>THREAD_INFO\<close> node of a thread of
  a process, or nowhere determinate. The variable is declared without initialiser
  in the loop body; the branches for thread and process creation and for a process
  exit with code 3 assign it, the exception branch only reads it. The model keeps
  the value the last assignment left, and makes it \<open>Indeterminate\<close> again as soon as
  the node it points at is erased.
\<close>

datatype thread_ptr = Indeterminate | NodeOf DWORD DWORD

record session =
  g_Processes :: PROCESS_INFO_LIST
  fFinished :: bool
  fBreakpointSignalled :: bool
  fWowBreakpointSignalled :: bool
  pThreadInfo :: thread_ptr

definition read_hThread :: "PROCESS_INFO_LIST \<Rightarrow> thread_ptr \<Rightarrow> HANDLE option" where
  "read_hThread g p =
     (case p of
        Indeterminate \<Rightarrow> None
      | NodeOf pid tid \<Rightarrow>
          (case map_of g pid of
             None \<Rightarrow> None
           | Some pinfo \<Rightarrow> map_option hThread (map_of (Threads pinfo) tid)))"

definition after_thread_erase :: "DWORD \<Rightarrow> DWORD \<Rightarrow> thread_ptr \<Rightarrow> thread_ptr" where
  "after_thread_erase pid tid p = (if p = NodeOf pid tid then Indeterminate else p)"

definition after_process_erase :: "DWORD \<Rightarrow> thread_ptr \<Rightarrow> thread_ptr" where
  "after_process_erase pid p =
     (case p of
        Indeterminate \<Rightarrow> Indeterminate
      | NodeOf pid' tid \<Rightarrow> if pid' = pid then Indeterminate else p)"

section \<open>The handlers of DebugMainLoop\<close>

text \<open>Symbol options of dbghelp.h (platform header).\<close>

definition SYMOPT_UNDNAME :: DWORD where "SYMOPT_UNDNAME = 0x2"
definition SYMOPT_LOAD_LINES :: DWORD where "SYMOPT_LOAD_LINES = 0x10"
definition SYMOPT_OMAP_FIND_NEAREST :: DWORD where "SYMOPT_OMAP_FIND_NEAREST = 0x20"
definition SYMOPT_INCLUDE_32BIT_MODULES :: DWORD where "SYMOPT_INCLUDE_32BIT_MODULES = 0x2000"
definition SYMOPT_DEBUG :: DWORD where "SYMOPT_DEBUG = 0x80000000"

text \<open>The line terminators of the format strings.\<close>

definition CRLF :: string where
  "CRLF = [CHR 0x0D, CHR 0x0A]"

definition LF :: string where
  "LF = [CHR 0x0A]"

text \<open>
  What a handler makes of a notification: it returns to the loop with the new
  state, its calls and the continuation status, or it ends the program, leaving the
  state and the calls made until then.
\<close>

type_synonym handled =
  "(fatal \<times> session \<times> effect list) + (session \<times> effect list \<times> continue_status)"

definition trace :: "DebugOptions \<Rightarrow> string \<Rightarrow> effect list" where
  "trace opts fmt = (if debug_flag opts then [Lprintf fmt] else [])"

definition loadModule :: "bool \<Rightarrow> HANDLE \<Rightarrow> HANDLE \<Rightarrow> LPVOID \<Rightarrow> effect list" where
  "loadModule ok hProc hFile lpBaseOfDll =
     SymLoadModuleEx hProc hFile lpBaseOfDll
     # (if \<not> ok then [OutputDebug (''warning: SymLoadModule64 failed: 0x%08lx'' @ LF)] else [])
     @ (if hFile \<noteq> NULL then [CloseHandle hFile] else [])"

text \<open>\<open>pProcessInfo->Threads[tid].hThread = h\<close>.\<close>

definition store_hThread :: "DWORD \<Rightarrow> HANDLE \<Rightarrow> THREAD_INFO_LIST \<Rightarrow> THREAD_INFO_LIST" where
  "store_hThread tid h ts =
     (let ts = map_subscript new_THREAD_INFO tid ts
      in map_store tid ((map_at new_THREAD_INFO tid ts)\<lparr>hThread := h\<rparr>) ts)"

text \<open>
  The first-chance part of the exception branch (lines 211 to 246). The result says
  whether the branch is left with \<open>break\<close> before the lookup of the process.
\<close>

definition first_chance_stage ::
  "DebugOptions \<Rightarrow> session \<Rightarrow> DWORD \<Rightarrow> bool \<times> session \<times> effect list \<times> continue_status" where
  "first_chance_stage opts s ExceptionCode =
     (let attach = (ExceptionCode = STATUS_BREAKPOINT \<and> \<not> fBreakpointSignalled s);
          s = (if attach then s\<lparr>fBreakpointSignalled := True\<rparr> else s);
          signal = (if attach \<and> hEvent opts \<noteq> NULL
                    then [SetEvent (hEvent opts), CloseHandle (hEvent opts)] else [])
      in if attach \<and> \<not> breakpoint_flag opts then (True, s, signal, DBG_CONTINUE)
         else
           let wow = (ExceptionCode = STATUS_WX86_BREAKPOINT \<and> \<not> fWowBreakpointSignalled s);
               s = (if wow then s\<lparr>fWowBreakpointSignalled := True\<rparr> else s);
               dwContinueStatus = (if wow then DBG_CONTINUE else DBG_EXCEPTION_NOT_HANDLED)
           in (\<not> first_chance opts, s, signal, dwContinueStatus))"

text \<open>
  The loop over \<open>pProcessInfo->Threads\<close> (lines 258 to 268). Every call of
  \<open>dumpStack\<close> passes \<open>pThreadInfo->hThread\<close>, which the loop does not change.
\<close>

fun dump_threads ::
  "DebugOptions \<Rightarrow> DWORD \<Rightarrow> DWORD \<Rightarrow> HANDLE \<Rightarrow> HANDLE option \<Rightarrow> THREAD_INFO_LIST \<Rightarrow> effect list" where
  "dump_threads opts tid ExceptionCode hProc h [] = []"
| "dump_threads opts tid ExceptionCode hProc h (it # rest) =
     (if fst it \<noteq> tid \<and> ExceptionCode \<noteq> STATUS_BREAKPOINT \<and> \<not> verbose_flag opts
      then dump_threads opts tid ExceptionCode hProc h rest
      else DumpStack hProc h # dump_threads opts tid ExceptionCode hProc h rest)"

text \<open>Lines 248 to 276: the lookup, the dumps and the termination.\<close>

definition capture_stage ::
  "DebugOptions \<Rightarrow> session \<Rightarrow> DWORD \<Rightarrow> DWORD \<Rightarrow> DWORD \<Rightarrow> DWORD \<Rightarrow> session \<times> effect list" where
  "capture_stage opts s pid tid ExceptionCode dwFirstChance =
     (let g = map_subscript new_PROCESS_INFO pid (g_Processes s);
          pProcessInfo = map_at new_PROCESS_INFO pid g
      in (s\<lparr>g_Processes := g\<rparr>,
          [SymRefreshModuleList (hProcess pProcessInfo),
           DumpException (hProcess pProcessInfo) ExceptionCode]
          @ dump_threads opts tid ExceptionCode (hProcess pProcessInfo)
              (read_hThread g (pThreadInfo s)) (Threads pProcessInfo)
          @ (if dwFirstChance = 0
             then [TerminateProcess (hProcess pProcessInfo) ExceptionCode] else [])))"

definition on_exception ::
  "DebugOptions \<Rightarrow> session \<Rightarrow> DWORD \<Rightarrow> DWORD \<Rightarrow> DWORD \<Rightarrow> DWORD
   \<Rightarrow> session \<times> effect list \<times> continue_status" where
  "on_exception opts s pid tid ExceptionCode dwFirstChance =
     (let log = trace opts (''EXCEPTION PID=%lu TID=%lu ExceptionCode=0x%lx dwFirstChance=%lu'' @ CRLF)
      in if dwFirstChance \<noteq> 0 then
           (case first_chance_stage opts s ExceptionCode of
              (leave, s, signal, dwContinueStatus) \<Rightarrow>
                if leave then (s, log @ signal, dwContinueStatus)
                else (case capture_stage opts s pid tid ExceptionCode dwFirstChance of
                        (s, dumps) \<Rightarrow> (s, log @ signal @ dumps, dwContinueStatus)))
         else (case capture_stage opts s pid tid ExceptionCode dwFirstChance of
                 (s, dumps) \<Rightarrow> (s, log @ dumps, DBG_EXCEPTION_NOT_HANDLED)))"

definition on_create_thread :: "DebugOptions \<Rightarrow> session \<Rightarrow> DWORD \<Rightarrow> DWORD \<Rightarrow> HANDLE
   \<Rightarrow> session \<times> effect list \<times> continue_status" where
  "on_create_thread opts s pid tid h =
     (let g = map_subscript new_PROCESS_INFO pid (g_Processes s);
          pProcessInfo = map_at new_PROCESS_INFO pid g;
          g = map_store pid (pProcessInfo\<lparr>Threads := store_hThread tid h (Threads pProcessInfo)\<rparr>) g
      in (s\<lparr>g_Processes := g, pThreadInfo := NodeOf pid tid\<rparr>,
          trace opts (''CREATE_THREAD PID=%lu TID=%lu'' @ CRLF), DBG_CONTINUE))"

definition on_create_process ::
  "DebugOptions \<Rightarrow> answers \<Rightarrow> session \<Rightarrow> DWORD \<Rightarrow> DWORD \<Rightarrow> HANDLE \<Rightarrow> HANDLE \<Rightarrow> HANDLE \<Rightarrow> LPVOID
   \<Rightarrow> handled" where
  "on_create_process opts ans s pid tid hFile hProc hThr lpBaseOfImage =
     (let g = map_subscript new_PROCESS_INFO pid (g_Processes s);
          g = map_store pid ((map_at new_PROCESS_INFO pid g)\<lparr>hProcess := hProc\<rparr>) g;
          pProcessInfo = map_at new_PROCESS_INFO pid g;
          g = map_store pid (pProcessInfo\<lparr>Threads := store_hThread tid hThr (Threads pProcessInfo)\<rparr>) g;
          dwSymOptions = or (SymGetOptions_value ans)
                           (or SYMOPT_UNDNAME (or SYMOPT_LOAD_LINES SYMOPT_OMAP_FIND_NEAREST));
          dwSymOptions = (if debug_flag opts then or dwSymOptions SYMOPT_DEBUG else dwSymOptions);
          dwSymOptions = (if bWow64 ans then or dwSymOptions SYMOPT_INCLUDE_32BIT_MODULES
                          else dwSymOptions)
      in if \<not> InitializeSym_ok ans
         then Inl (ExitFailure, s\<lparr>g_Processes := g, pThreadInfo := NodeOf pid tid\<rparr>,
                   trace opts (''CREATE_PROCESS PID=%lu TID=%lu'' @ CRLF)
                   @ [SymSetOptions dwSymOptions, InitializeSym hProc,
                      OutputDebug (''error: SymInitialize failed: 0x%08lx'' @ LF)])
         else Inr (s\<lparr>g_Processes := g, pThreadInfo := NodeOf pid tid\<rparr>,
                   trace opts (''CREATE_PROCESS PID=%lu TID=%lu'' @ CRLF)
                   @ [SymSetOptions dwSymOptions, InitializeSym hProc, SymRegisterCallback64 hProc]
                   @ loadModule (SymLoadModuleEx_ok ans) hProc hFile lpBaseOfImage,
                   DBG_CONTINUE))"

definition on_exit_thread :: "DebugOptions \<Rightarrow> session \<Rightarrow> DWORD \<Rightarrow> DWORD
   \<Rightarrow> session \<times> effect list \<times> continue_status" where
  "on_exit_thread opts s pid tid =
     (let g = map_subscript new_PROCESS_INFO pid (g_Processes s);
          pProcessInfo = map_at new_PROCESS_INFO pid g;
          g = map_store pid (pProcessInfo\<lparr>Threads := map_erase tid (Threads pProcessInfo)\<rparr>) g
      in (s\<lparr>g_Processes := g, pThreadInfo := after_thread_erase pid tid (pThreadInfo s)\<rparr>,
          trace opts (''EXIT_THREAD PID=%lu TID=%lu dwExitCode=0x%lx'' @ CRLF), DBG_CONTINUE))"

definition on_exit_process :: "DebugOptions \<Rightarrow> answers \<Rightarrow> session \<Rightarrow> DWORD \<Rightarrow> DWORD \<Rightarrow> DWORD
   \<Rightarrow> session \<times> effect list \<times> continue_status" where
  "on_exit_process opts ans s pid tid dwExitCode =
     (let g = map_subscript new_PROCESS_INFO pid (g_Processes s);
          pProcessInfo = map_at new_PROCESS_INFO pid g;
          hProc = hProcess pProcessInfo;
          abort = (dwExitCode = 3);
          g = (if abort
               then map_store pid
                      (pProcessInfo\<lparr>Threads := map_subscript new_THREAD_INFO tid (Threads pProcessInfo)\<rparr>) g
               else g);
          p = (if abort then NodeOf pid tid else pThreadInfo s);
          dump = (if abort then [DumpStack hProc (read_hThread g p)] else []);
          g = map_erase pid g;
          p = after_process_erase pid p;
          cleanup = SymCleanup hProc
                    # (if \<not> SymCleanup_ok ans then [OutputDebug (''SymCleanup failed with 0x%08lx'' @ LF)] else [])
      in (s\<lparr>g_Processes := g, pThreadInfo := p, fFinished := (if g = [] then True else fFinished s)\<rparr>,
          trace opts (''EXIT_PROCESS PID=%lu TID=%lu dwExitCode=0x%lx'' @ CRLF) @ dump @ cleanup,
          DBG_CONTINUE))"

definition on_load_dll :: "DebugOptions \<Rightarrow> answers \<Rightarrow> session \<Rightarrow> DWORD \<Rightarrow> HANDLE \<Rightarrow> LPVOID
   \<Rightarrow> session \<times> effect list \<times> continue_status" where
  "on_load_dll opts ans s pid hFile lpBaseOfDll =
     (let g = map_subscript new_PROCESS_INFO pid (g_Processes s);
          hProc = hProcess (map_at new_PROCESS_INFO pid g)
      in (s\<lparr>g_Processes := g\<rparr>,
          trace opts (''LOAD_DLL PID=%lu TID=%lu lpBaseOfDll=%p'' @ CRLF)
          @ loadModule (SymLoadModuleEx_ok ans) hProc hFile lpBaseOfDll,
          DBG_CONTINUE))"

definition on_unload_dll :: "DebugOptions \<Rightarrow> session \<Rightarrow> DWORD \<Rightarrow> LPVOID
   \<Rightarrow> session \<times> effect list \<times> continue_status" where
  "on_unload_dll opts s pid lpBaseOfDll =
     (let g = map_subscript new_PROCESS_INFO pid (g_Processes s);
          hProc = hProcess (map_at new_PROCESS_INFO pid g)
      in (s\<lparr>g_Processes := g\<rparr>,
          trace opts (''UNLOAD_DLL PID=%lu TID=%lu lpBaseOfDll=%p'' @ CRLF)
          @ [SymUnloadModule64 hProc lpBaseOfDll],
          DBG_CONTINUE))"

definition on_debug_string ::
  "DebugOptions \<Rightarrow> answers \<Rightarrow> session \<Rightarrow> DWORD \<Rightarrow> LPVOID \<Rightarrow> 16 word \<Rightarrow> 16 word
   \<Rightarrow> handled" where
  "on_debug_string opts ans s pid lpDebugStringData fUnicode nDebugStringLength =
     (let log = trace opts (''OUTPUT_DEBUG_STRING PID=%lu TID=%lu'' @ CRLF);
          g = map_subscript new_PROCESS_INFO pid (g_Processes s);
          pProcessInfo = map_at new_PROCESS_INFO pid g
      in if fUnicode \<noteq> 0 \<and> \<not> NDEBUG ans then Inl (AssertionFailed, s\<lparr>g_Processes := g\<rparr>, log)
         else
           (case readProcessString (ReadProcessMemory_answer ans) (hProcess pProcessInfo)
                   lpDebugStringData (unat nDebugStringLength) of
              Inl f \<Rightarrow>
                Inl (if NDEBUG ans then BufferOverrun else f, s\<lparr>g_Processes := g\<rparr>,
                     log @ [ReadProcessMemory (hProcess pProcessInfo) lpDebugStringData
                              (unat nDebugStringLength)])
            | Inr (reads, lpDebugString) \<Rightarrow>
                Inr (s\<lparr>g_Processes := g\<rparr>,
                     log @ reads @ [Fputs (c_string lpDebugString)],
                     DBG_CONTINUE)))"

text \<open>
  The \<open>switch\<close> of the loop body. The status starts as \<open>DBG_CONTINUE\<close> (line 176)
  and only the exception branch assigns it.
\<close>

definition handle_event ::
  "DebugOptions \<Rightarrow> answers \<Rightarrow> session \<Rightarrow> DEBUG_EVENT
   \<Rightarrow> handled" where
  "handle_event opts ans s ev =
     (case u ev of
        Exception ExceptionCode dwFirstChance \<Rightarrow>
          Inr (on_exception opts s (dwProcessId ev) (dwThreadId ev) ExceptionCode dwFirstChance)
      | CreateThread h \<Rightarrow>
          Inr (on_create_thread opts s (dwProcessId ev) (dwThreadId ev) h)
      | CreateProcessInfo hFile hProc hThr lpBaseOfImage \<Rightarrow>
          on_create_process opts ans s (dwProcessId ev) (dwThreadId ev) hFile hProc hThr lpBaseOfImage
      | ExitThread dwExitCode \<Rightarrow>
          Inr (on_exit_thread opts s (dwProcessId ev) (dwThreadId ev))
      | ExitProcess dwExitCode \<Rightarrow>
          Inr (on_exit_process opts ans s (dwProcessId ev) (dwThreadId ev) dwExitCode)
      | LoadDll hFile lpBaseOfDll \<Rightarrow>
          Inr (on_load_dll opts ans s (dwProcessId ev) hFile lpBaseOfDll)
      | UnloadDll lpBaseOfDll \<Rightarrow>
          Inr (on_unload_dll opts s (dwProcessId ev) lpBaseOfDll)
      | DebugString lpDebugStringData fUnicode nDebugStringLength \<Rightarrow>
          on_debug_string opts ans s (dwProcessId ev) lpDebugStringData fUnicode nDebugStringLength
      | Rip \<Rightarrow> Inr (s, trace opts (''RIP PID=%lu TID=%lu'' @ CRLF), DBG_CONTINUE)
      | Unrecognized dwDebugEventCode \<Rightarrow>
          Inr (s, trace opts (''EVENT%lu PID=%lu TID=%lu'' @ CRLF), DBG_CONTINUE))"

section \<open>DebugMainLoop\<close>

text \<open>
  \<open>WaitForDebugEvent\<close> blocks until the system delivers a notification or fails.
  The loop is run on the finite list of what the successive calls return; when the
  list is used up the loop is blocked in the next call (\<open>Waiting\<close>). The other ways
  out are the two \<open>return\<close>s and the end of the host program inside a handler, with
  the state and the calls the handler has reached by then.
\<close>

datatype wait_result = WaitFailed | Notified DEBUG_EVENT answers

datatype outcome = Returned bool | Waiting | Ended fatal

fun main_loop ::
  "DebugOptions \<Rightarrow> session \<Rightarrow> wait_result list \<Rightarrow> outcome \<times> session \<times> effect list" where
  "main_loop opts s [] = (if fFinished s then (Returned True, s, []) else (Waiting, s, []))"
| "main_loop opts s (WaitFailed # rest) =
     (if fFinished s then (Returned True, s, [])
      else (Returned False, s, [OutputDebug ''WaitForDebugEvent: 0x%08lx'']))"
| "main_loop opts s (Notified ev ans # rest) =
     (if fFinished s then (Returned True, s, [])
      else
        (case handle_event opts ans s ev of
           Inl (f, s', effs) \<Rightarrow> (Ended f, s', effs)
         | Inr (s', effs, dwContinueStatus) \<Rightarrow>
             (case main_loop opts s' rest of
                (out, s'', later) \<Rightarrow>
                  (out, s'',
                   effs @ ContinueDebugEvent (dwProcessId ev) (dwThreadId ev) dwContinueStatus
                        # later))))"

text \<open>
  A call of \<open>DebugMainLoop\<close> starts with its three flags cleared and the registry
  as the previous use of the static \<open>g_Processes\<close> left it (empty at program start).
\<close>

definition start_session :: "PROCESS_INFO_LIST \<Rightarrow> session" where
  "start_session g =
     \<lparr>g_Processes = g, fFinished = False, fBreakpointSignalled = False,
      fWowBreakpointSignalled = False, pThreadInfo = Indeterminate\<rparr>"

definition DebugMainLoop ::
  "DebugOptions \<Rightarrow> PROCESS_INFO_LIST \<Rightarrow> wait_result list \<Rightarrow> outcome \<times> session \<times> effect list" where
  "DebugMainLoop opts g ws = main_loop opts (start_session g) ws"

section \<open>The notions the properties are stated with\<close>

text \<open>The state a handler leaves, whether it returns or ends the program.\<close>

definition state_after :: "handled \<Rightarrow> session" where
  "state_after r = (case r of Inl (f, s, effs) \<Rightarrow> s | Inr (s, effs, st) \<Rightarrow> s)"

text \<open>
  The list of wait results in which every call of \<open>WaitForDebugEvent\<close> delivers the
  next of the given notifications, each with the answers given while it is handled.
\<close>

definition delivered :: "(DEBUG_EVENT \<times> answers) list \<Rightarrow> wait_result list" where
  "delivered ns = map (\<lambda>n. Notified (fst n) (snd n)) ns"

text \<open>The diagnostic captures: a dump of the exception record or of a stack.\<close>

fun is_capture :: "effect \<Rightarrow> bool" where
  "is_capture (DumpException h c) = True"
| "is_capture (DumpStack h t) = True"
| "is_capture e = False"

fun is_stack_dump :: "effect \<Rightarrow> bool" where
  "is_stack_dump (DumpStack h t) = True"
| "is_stack_dump e = False"

fun is_terminate :: "effect \<Rightarrow> bool" where
  "is_terminate (TerminateProcess h c) = True"
| "is_terminate e = False"

fun is_exception_dump :: "effect \<Rightarrow> bool" where
  "is_exception_dump (DumpException h c) = True"
| "is_exception_dump e = False"

text \<open>A first-chance breakpoint exception, and lists of wait results without one.\<close>

definition first_chance_breakpoint :: "DEBUG_EVENT \<Rightarrow> bool" where
  "first_chance_breakpoint ev =
     (case u ev of
        Exception ExceptionCode dwFirstChance \<Rightarrow>
          ExceptionCode = STATUS_BREAKPOINT \<and> dwFirstChance \<noteq> 0
      | _ \<Rightarrow> False)"

fun no_first_chance_breakpoint :: "wait_result list \<Rightarrow> bool" where
  "no_first_chance_breakpoint [] = True"
| "no_first_chance_breakpoint (WaitFailed # ws) = no_first_chance_breakpoint ws"
| "no_first_chance_breakpoint (Notified ev ans # ws) =
     (\<not> first_chance_breakpoint ev \<and> no_first_chance_breakpoint ws)"

text \<open>The file handle a notification carries (\<open>NULL\<close> when its kind has none).\<close>

definition file_handle :: "DEBUG_EVENT \<Rightarrow> HANDLE" where
  "file_handle ev =
     (case u ev of
        CreateProcessInfo hFile hProc hThr lpBaseOfImage \<Rightarrow> hFile
      | LoadDll hFile lpBaseOfDll \<Rightarrow> hFile
      | _ \<Rightarrow> NULL)"

fun no_file_handle :: "HANDLE \<Rightarrow> wait_result list \<Rightarrow> bool" where
  "no_file_handle h [] = True"
| "no_file_handle h (WaitFailed # ws) = no_file_handle h ws"
| "no_file_handle h (Notified ev ans # ws) = (file_handle ev \<noteq> h \<and> no_file_handle h ws)"

subsection \<open>Created but not yet exited, read off the notifications\<close>

text \<open>
  The reference for the registry follows the words of the specification: a process
  is live after a list of notifications when it has been created and has not exited
  since, and a thread of it is live when it has been created (with its process, or
  by a thread-create) and neither it nor its process has exited since. Both are
  decided by looking back from the newest notification.
\<close>

definition creates_process :: "DEBUG_EVENT \<Rightarrow> DWORD \<Rightarrow> bool" where
  "creates_process ev pid =
     (dwProcessId ev = pid \<and>
      (case u ev of CreateProcessInfo hFile hProc hThr lpBaseOfImage \<Rightarrow> True | _ \<Rightarrow> False))"

definition exits_process :: "DEBUG_EVENT \<Rightarrow> DWORD \<Rightarrow> bool" where
  "exits_process ev pid =
     (dwProcessId ev = pid \<and> (case u ev of ExitProcess dwExitCode \<Rightarrow> True | _ \<Rightarrow> False))"

definition creates_thread :: "DEBUG_EVENT \<Rightarrow> DWORD \<Rightarrow> DWORD \<Rightarrow> bool" where
  "creates_thread ev pid tid =
     (dwProcessId ev = pid \<and> dwThreadId ev = tid \<and>
      (case u ev of
         CreateProcessInfo hFile hProc hThr lpBaseOfImage \<Rightarrow> True
       | CreateThread h \<Rightarrow> True
       | _ \<Rightarrow> False))"

definition exits_thread :: "DEBUG_EVENT \<Rightarrow> DWORD \<Rightarrow> DWORD \<Rightarrow> bool" where
  "exits_thread ev pid tid =
     (dwProcessId ev = pid \<and>
      (case u ev of
         ExitThread dwExitCode \<Rightarrow> dwThreadId ev = tid
       | ExitProcess dwExitCode \<Rightarrow> True
       | _ \<Rightarrow> False))"

fun process_live_back :: "DEBUG_EVENT list \<Rightarrow> DWORD \<Rightarrow> bool" where
  "process_live_back [] pid = False"
| "process_live_back (ev # older) pid =
     (if exits_process ev pid then False
      else if creates_process ev pid then True
      else process_live_back older pid)"

fun thread_live_back :: "DEBUG_EVENT list \<Rightarrow> DWORD \<Rightarrow> DWORD \<Rightarrow> bool" where
  "thread_live_back [] pid tid = False"
| "thread_live_back (ev # older) pid tid =
     (if exits_thread ev pid tid then False
      else if creates_thread ev pid tid then True
      else thread_live_back older pid tid)"

definition process_live :: "DEBUG_EVENT list \<Rightarrow> DWORD \<Rightarrow> bool" where
  "process_live evs pid = process_live_back (rev evs) pid"

definition thread_live :: "DEBUG_EVENT list \<Rightarrow> DWORD \<Rightarrow> DWORD \<Rightarrow> bool" where
  "thread_live evs pid tid = thread_live_back (rev evs) pid tid"

text \<open>
  The four lifecycle kinds, and the registry discipline: a thread-create, a
  thread-exit and a process-exit name a process that is live when they arrive.
\<close>

definition lifecycle :: "DEBUG_EVENT \<Rightarrow> bool" where
  "lifecycle ev =
     (case u ev of
        CreateProcessInfo hFile hProc hThr lpBaseOfImage \<Rightarrow> True
      | CreateThread h \<Rightarrow> True
      | ExitThread dwExitCode \<Rightarrow> True
      | ExitProcess dwExitCode \<Rightarrow> True
      | _ \<Rightarrow> False)"

definition in_discipline :: "DEBUG_EVENT list \<Rightarrow> DEBUG_EVENT \<Rightarrow> bool" where
  "in_discipline earlier ev =
     (case u ev of
        CreateThread h \<Rightarrow> process_live earlier (dwProcessId ev)
      | ExitThread dwExitCode \<Rightarrow> process_live earlier (dwProcessId ev)
      | ExitProcess dwExitCode \<Rightarrow> process_live earlier (dwProcessId ev)
      | _ \<Rightarrow> True)"

fun disciplined_after :: "DEBUG_EVENT list \<Rightarrow> DEBUG_EVENT list \<Rightarrow> bool" where
  "disciplined_after earlier [] = True"
| "disciplined_after earlier (ev # evs) =
     (in_discipline earlier ev \<and> disciplined_after (earlier @ [ev]) evs)"

definition disciplined :: "DEBUG_EVENT list \<Rightarrow> bool" where
  "disciplined evs = disciplined_after [] evs"

text \<open>
  Some process is live after a list of notifications; and a list after every
  notification of which some process is live.
\<close>

definition some_process_live :: "DEBUG_EVENT list \<Rightarrow> bool" where
  "some_process_live evs = list_ex (\<lambda>ev. process_live evs (dwProcessId ev)) evs"

fun populated_after :: "DEBUG_EVENT list \<Rightarrow> DEBUG_EVENT list \<Rightarrow> bool" where
  "populated_after earlier [] = True"
| "populated_after earlier (ev # evs) =
     (some_process_live (earlier @ [ev]) \<and> populated_after (earlier @ [ev]) evs)"

definition stays_populated :: "DEBUG_EVENT list \<Rightarrow> bool" where
  "stays_populated evs = populated_after [] evs"

text \<open>The threads the loop of the exception branch dumps a stack for.\<close>

definition considered :: "DebugOptions \<Rightarrow> DWORD \<Rightarrow> DWORD \<Rightarrow> THREAD_INFO_LIST \<Rightarrow> DWORD list" where
  "considered opts tid ExceptionCode ts =
     filter (\<lambda>t. t = tid \<or> ExceptionCode = STATUS_BREAKPOINT \<or> verbose_flag opts) (map fst ts)"

text \<open>
  The invariant of the loop: the registry holds a record for exactly the live
  processes, each record holds exactly the live threads of its process, and only
  live processes have live threads.
\<close>

definition tracks :: "PROCESS_INFO_LIST \<Rightarrow> DEBUG_EVENT list \<Rightarrow> bool" where
  "tracks g evs =
     ((\<forall>pid. (map_of g pid \<noteq> None) = process_live evs pid)
      \<and> (\<forall>pid pinfo tid. map_of g pid = Some pinfo
            \<longrightarrow> (map_of (Threads pinfo) tid \<noteq> None) = thread_live evs pid tid)
      \<and> (\<forall>pid tid. thread_live evs pid tid \<longrightarrow> process_live evs pid))"

text \<open>
  A list stands for a \<open>std::map\<close> when its keys ascend strictly; the registry is
  one such map of records whose thread lists are such maps.
\<close>

definition key_ordered :: "('k::linorder \<times> 'v) list \<Rightarrow> bool" where
  "key_ordered m = sorted_wrt (<) (map fst m)"

definition registry_ordered :: "PROCESS_INFO_LIST \<Rightarrow> bool" where
  "registry_ordered g =
     (key_ordered g \<and> list_all (\<lambda>node. key_ordered (Threads (snd node))) g)"

subsection \<open>A concrete session\<close>

text \<open>
  Options with every flag off and an attach signal, answers in which every call
  succeeds (in a build with assertions), and the notifications of a small session:
  process 1 starts with thread 1, thread 2 is created, an access violation is
  reported at second chance.
\<close>

definition quiet :: DebugOptions where
  "quiet = \<lparr>breakpoint_flag = False, verbose_flag = False, debug_flag = False,
            first_chance = False, hEvent = 7\<rparr>"

definition all_ok :: answers where
  "all_ok = \<lparr>NDEBUG = False, SymGetOptions_value = 0, bWow64 = False, InitializeSym_ok = True,
             SymLoadModuleEx_ok = True, SymCleanup_ok = True,
             ReadProcessMemory_answer = (True, [])\<rparr>"

definition STATUS_ACCESS_VIOLATION :: DWORD where
  "STATUS_ACCESS_VIOLATION = 0xC0000005"

definition process_1_created :: DEBUG_EVENT where
  "process_1_created = \<lparr>dwProcessId = 1, dwThreadId = 1, u = CreateProcessInfo 5 100 11 4194304\<rparr>"

definition thread_2_created :: DEBUG_EVENT where
  "thread_2_created = \<lparr>dwProcessId = 1, dwThreadId = 2, u = CreateThread 22\<rparr>"

definition attach_breakpoint :: DEBUG_EVENT where
  "attach_breakpoint = \<lparr>dwProcessId = 1, dwThreadId = 1, u = Exception STATUS_BREAKPOINT 1\<rparr>"

definition crash_of_thread_1 :: DEBUG_EVENT where
  "crash_of_thread_1 = \<lparr>dwProcessId = 1, dwThreadId = 1, u = Exception STATUS_ACCESS_VIOLATION 0\<rparr>"

definition process_1_exited :: DEBUG_EVENT where
  "process_1_exited = \<lparr>dwProcessId = 1, dwThreadId = 1, u = ExitProcess STATUS_ACCESS_VIOLATION\<rparr>"

definition process_2_created :: DEBUG_EVENT where
  "process_2_created = \<lparr>dwProcessId = 2, dwThreadId = 1, u = CreateProcessInfo 6 200 21 4194304\<rparr>"

definition thread_1_exited :: DEBUG_EVENT where
  "thread_1_exited = \<lparr>dwProcessId = 1, dwThreadId = 1, u = ExitThread 0\<rparr>"

text \<open>The session state once process 1 and its threads 1 and 2 are registered.\<close>

definition two_threads :: session where
  "two_threads =
     \<lparr>g_Processes = [(1, \<lparr>hProcess = 100,
                           Threads = [(1, \<lparr>hThread = 11\<rparr>), (2, \<lparr>hThread = 22\<rparr>)]\<rparr>)],
      fFinished = False, fBreakpointSignalled = False, fWowBreakpointSignalled = False,
      pThreadInfo = NodeOf 1 2\<rparr>"

subsection \<open>Handlers that look the process up\<close>

text \<open>
  The kinds of notification whose handler reads \<open>g_Processes[dwProcessId]\<close> and
  neither registers nor removes a process.
\<close>

definition looks_up :: "DEBUG_EVENT \<Rightarrow> bool" where
  "looks_up ev =
     (case u ev of
        Exception ExceptionCode dwFirstChance \<Rightarrow> True
      | CreateThread h \<Rightarrow> True
      | ExitThread dwExitCode \<Rightarrow> True
      | LoadDll hFile lpBaseOfDll \<Rightarrow> True
      | UnloadDll lpBaseOfDll \<Rightarrow> True
      | DebugString lpDebugStringData fUnicode nDebugStringLength \<Rightarrow> True
      | _ \<Rightarrow> False)"

text \<open>
  The exceptions that are passed through at first chance, stated on the fields of
  the notification, the options and the flag of the session: a first-chance
  exception when \<open>first_chance\<close> is off, and the first first-chance breakpoint of the
  session when \<open>breakpoint_flag\<close> is off.
\<close>

definition passed_through :: "DebugOptions \<Rightarrow> session \<Rightarrow> DEBUG_EVENT \<Rightarrow> bool" where
  "passed_through opts s ev =
     (case u ev of
        Exception ExceptionCode dwFirstChance \<Rightarrow>
          dwFirstChance \<noteq> 0
          \<and> (\<not> first_chance opts
               \<or> (ExceptionCode = STATUS_BREAKPOINT \<and> \<not> fBreakpointSignalled s
                   \<and> \<not> breakpoint_flag opts))
      | _ \<Rightarrow> False)"

text \<open>
  Of a debug-string notification: the read reports no more bytes than were requested
  (the contract of \<open>ReadProcessMemory\<close>); the string is wide and the build has its
  assertions.
\<close>

definition read_within_request :: "answers \<Rightarrow> DEBUG_EVENT \<Rightarrow> bool" where
  "read_within_request ans ev =
     (case u ev of
        DebugString lpDebugStringData fUnicode nDebugStringLength \<Rightarrow>
          length (snd (ReadProcessMemory_answer ans)) \<le> unat nDebugStringLength
      | _ \<Rightarrow> True)"

definition wide_string_asserted :: "answers \<Rightarrow> DEBUG_EVENT \<Rightarrow> bool" where
  "wide_string_asserted ans ev =
     (case u ev of
        DebugString lpDebugStringData fUnicode nDebugStringLength \<Rightarrow>
          fUnicode \<noteq> 0 \<and> \<not> NDEBUG ans
      | _ \<Rightarrow> False)"

text \<open>What the handler itself adds to the threads of the record it looked up.\<close>

definition threads_added :: "DEBUG_EVENT \<Rightarrow> THREAD_INFO_LIST" where
  "threads_added ev =
     (case u ev of CreateThread h \<Rightarrow> [(dwThreadId ev, \<lparr>hThread = h\<rparr>)] | _ \<Rightarrow> [])"

section \<open>Facts about the map operations\<close>

lemma map_of_map_store:
  "map_of (map_store k v m) k' = (if k' = k then Some v else map_of m k')"
  by (induction m) auto

lemma map_of_map_subscript:
  "map_of (map_subscript d k m) k' = (if k' = k then Some (map_at d k m) else map_of m k')"
  by (simp add: map_subscript_def map_of_map_store)

lemma map_of_map_erase:
  "map_of (map_erase k m) k' = (if k' = k then None else map_of m k')"
  by (induction m) (auto simp: map_erase_def)

lemma map_at_present: "map_of m k = Some v \<Longrightarrow> map_at d k m = v"
  by (simp add: map_at_def)

lemma map_at_absent: "map_of m k = None \<Longrightarrow> map_at d k m = d"
  by (simp add: map_at_def)

section \<open>Facts about readProcessString\<close>

lemma length_copy_in: "length bytes \<le> length buf \<Longrightarrow> length (copy_in bytes buf) = length buf"
  by (simp add: copy_in_def)

lemma c_string_prefix:
  "c_string (map Some bytes @ Some 0 # rest) = Some (takeWhile (\<lambda>b. b \<noteq> 0) bytes)"
  by (induction bytes) auto

lemma filled_buffer:
  assumes "length bytes \<le> L"
  shows "(copy_in bytes (replicate (L + 1) None))[length bytes := Some 0]
         = map Some bytes @ Some 0 # replicate (L - length bytes) None"
proof -
  have "L + 1 - length bytes = Suc (L - length bytes)"
    using assms by simp
  then have "drop (length bytes) (replicate (L + 1) (None :: byte option))
        = None # replicate (L - length bytes) None"
    by (simp only: drop_replicate replicate_Suc)
  then have "copy_in bytes (replicate (L + 1) None)
        = map Some bytes @ None # replicate (L - length bytes) None"
    using assms by (simp add: copy_in_def)
  then show ?thesis
    by (simp add: list_update_append)
qed

lemma c_string_zero_first: "buf \<noteq> [] \<Longrightarrow> buf ! 0 = Some 0 \<Longrightarrow> c_string buf = Some []"
  by (cases buf) auto

lemma readProcessString_value:
  assumes "length bytes \<le> L"
  shows "readProcessString (ok, bytes) h a L =
         Inr ([ReadProcessMemory h a L],
              (if ok then map Some bytes @ Some 0 # replicate (L - length bytes) None
               else (map Some bytes @ Some 0 # replicate (L - length bytes) None)[0 := Some 0]))"
proof (cases "length bytes = 0")
  case True
  then show ?thesis using assms filled_buffer [OF assms]
    by (simp add: readProcessString_def Let_def)
next
  case False
  then have "((copy_in bytes (replicate (L + 1) None))[0 := Some 0])[length bytes := Some 0]
      = ((copy_in bytes (replicate (L + 1) None))[length bytes := Some 0])[0 := Some 0]"
    by (simp add: list_update_swap)
  then show ?thesis using assms filled_buffer [OF assms]
    by (simp add: readProcessString_def Let_def)
qed

text \<open>
  Claim C6. \<open>readProcessString\<close> makes one read request, for exactly the \<open>L\<close> bytes it
  was given, and, the system never reporting more bytes than requested, it always
  returns a buffer: of \<open>L + 1\<close> bytes, with a zero byte at the number of bytes
  obtained. A successful read of all \<open>L\<close> bytes gives these \<open>L\<close> bytes followed by the
  terminator; a failed read gives a buffer that reads as the empty string; and the
  string the buffer holds is never longer than what was obtained.
\<close>

theorem readProcessString_contract:
  assumes "length bytes \<le> L"
  shows "\<exists>buf. readProcessString (ok, bytes) h a L = Inr ([ReadProcessMemory h a L], buf)
     \<and> length buf = L + 1 \<and> buf ! length bytes = Some 0
     \<and> (ok \<and> length bytes = L \<longrightarrow> buf = map Some bytes @ [Some 0])
     \<and> (\<not> ok \<longrightarrow> c_string buf = Some [])
     \<and> (\<exists>str. c_string buf = Some str \<and> length str \<le> length bytes)"
proof (cases ok)
  case True
  let ?buf = "map Some bytes @ Some 0 # replicate (L - length bytes) None"
  have "readProcessString (ok, bytes) h a L = Inr ([ReadProcessMemory h a L], ?buf)"
    using True readProcessString_value [OF assms] by simp
  moreover have "length ?buf = L + 1" using assms by simp
  moreover have "?buf ! length bytes = Some 0"
    by (simp add: nth_append)
  moreover have "length bytes = L \<longrightarrow> ?buf = map Some bytes @ [Some 0]" by simp
  moreover have "c_string ?buf = Some (takeWhile (\<lambda>b. b \<noteq> 0) bytes)"
    by (rule c_string_prefix)
  moreover have "length (takeWhile (\<lambda>b. b \<noteq> 0) bytes) \<le> length bytes"
    by (rule length_takeWhile_le)
  ultimately show ?thesis using True by blast
next
  case False
  let ?buf = "(map Some bytes @ Some 0 # replicate (L - length bytes) None)[0 := Some 0]"
  have "readProcessString (ok, bytes) h a L = Inr ([ReadProcessMemory h a L], ?buf)"
    using False readProcessString_value [OF assms] by simp
  moreover have "length ?buf = L + 1" using assms by simp
  moreover have "?buf ! length bytes = Some 0"
    by (cases bytes) (simp_all add: nth_append)
  moreover have "c_string ?buf = Some []"
    by (rule c_string_zero_first) (simp_all)
  ultimately show ?thesis using False by simp
qed

theorem readProcessString_contract_witness:
  "length [65, 66, 67 :: byte] \<le> 3 \<and>
   readProcessString (True, [65, 66, 67]) 100 4096 3
     = Inr ([ReadProcessMemory 100 4096 3], [Some 65, Some 66, Some 67, Some 0])"
  using readProcessString_contract [of "[65, 66, 67]" 3 True 100 4096]
  by auto

section \<open>Evaluating the handlers\<close>

lemmas handler_defs =
  handle_event_def on_exception_def on_create_thread_def on_create_process_def
  on_exit_thread_def on_exit_process_def on_load_dll_def on_unload_dll_def
  on_debug_string_def first_chance_stage_def capture_stage_def

lemmas session_defs =
  quiet_def all_ok_def STATUS_ACCESS_VIOLATION_def process_1_created_def thread_2_created_def
  attach_breakpoint_def crash_of_thread_1_def process_1_exited_def process_2_created_def
  thread_1_exited_def

lemmas run_defs =
  DebugMainLoop_def start_session_def handler_defs trace_def loadModule_def store_hThread_def
  map_subscript_def map_at_def map_erase_def new_PROCESS_INFO_def new_THREAD_INFO_def
  read_hThread_def after_thread_erase_def after_process_erase_def STATUS_BREAKPOINT_def
  STATUS_WX86_BREAKPOINT_def SYMOPT_UNDNAME_def SYMOPT_LOAD_LINES_def
  SYMOPT_OMAP_FIND_NEAREST_def

lemma two_threads_reached:
  "DebugMainLoop quiet [] [Notified process_1_created all_ok, Notified thread_2_created all_ok]
   = (Waiting, two_threads,
      [SymSetOptions 50, InitializeSym 100, SymRegisterCallback64 100,
       SymLoadModuleEx 100 5 4194304, CloseHandle 5,
       ContinueDebugEvent 1 1 DBG_CONTINUE, ContinueDebugEvent 1 2 DBG_CONTINUE])"
  by (simp add: run_defs session_defs two_threads_def)

lemma dump_threads_map:
  "dump_threads opts tid code hp h ts = map (\<lambda>t. DumpStack hp h) (considered opts tid code ts)"
  by (induction ts) (auto simp: considered_def)

lemma status_of_other_kinds:
  assumes "\<forall>code fc. u ev \<noteq> Exception code fc"
    and "handle_event opts ans s ev = Inr (s', effs, st)"
  shows "st = DBG_CONTINUE"
  using assms
  by (cases "u ev")
     (auto simp: handle_event_def on_create_thread_def on_create_process_def on_exit_thread_def
        on_exit_process_def on_load_dll_def on_unload_dll_def on_debug_string_def Let_def
        split: if_splits sum.splits)

section \<open>The exception branch\<close>

text \<open>
  The calls of the exception branch at second chance, by number: one \<open>dumpException\<close>,
  one \<open>dumpStack\<close> for each registered thread that the loop selects, one
  \<open>TerminateProcess\<close>. Which handle the stack dumps receive is the matter of the two
  theorems that follow.
\<close>

lemma second_chance_calls:
  assumes "map_of (g_Processes s) pid = Some pinfo"
    and "handle_event opts ans s \<lparr>dwProcessId = pid, dwThreadId = tid, u = Exception code 0\<rparr>
         = Inr (s', effs, st)"
  shows "filter is_exception_dump effs = [DumpException (hProcess pinfo) code]
       \<and> length (filter is_stack_dump effs) = length (considered opts tid code (Threads pinfo))
       \<and> filter is_terminate effs = [TerminateProcess (hProcess pinfo) code]
       \<and> (verbose_flag opts \<or> code = STATUS_BREAKPOINT
            \<longrightarrow> considered opts tid code (Threads pinfo) = map fst (Threads pinfo))
       \<and> (\<not> (verbose_flag opts \<or> code = STATUS_BREAKPOINT)
            \<longrightarrow> considered opts tid code (Threads pinfo)
                = filter (\<lambda>t. t = tid) (map fst (Threads pinfo)))"
proof -
  let ?g = "map_subscript new_PROCESS_INFO pid (g_Processes s)"
  have at: "map_at new_PROCESS_INFO pid ?g = pinfo"
    using assms(1) by (simp add: map_at_def map_of_map_subscript)
  have effs: "effs = trace opts (''EXCEPTION PID=%lu TID=%lu ExceptionCode=0x%lx dwFirstChance=%lu'' @ CRLF)
      @ [SymRefreshModuleList (hProcess pinfo), DumpException (hProcess pinfo) code]
      @ map (\<lambda>t. DumpStack (hProcess pinfo) (read_hThread ?g (pThreadInfo s)))
           (considered opts tid code (Threads pinfo))
      @ [TerminateProcess (hProcess pinfo) code]"
    using assms(2) at
    by (auto simp: handle_event_def on_exception_def capture_stage_def Let_def dump_threads_map)
  have 1: "filter is_exception_dump effs = [DumpException (hProcess pinfo) code]"
    unfolding effs by (simp add: trace_def filter_map comp_def)
  have 2: "length (filter is_stack_dump effs) = length (considered opts tid code (Threads pinfo))"
    unfolding effs by (simp add: trace_def filter_map comp_def)
  have 3: "filter is_terminate effs = [TerminateProcess (hProcess pinfo) code]"
    unfolding effs by (simp add: trace_def filter_map comp_def)
  have 4: "verbose_flag opts \<or> code = STATUS_BREAKPOINT
      \<longrightarrow> considered opts tid code (Threads pinfo) = map fst (Threads pinfo)"
    by (auto simp: considered_def)
  have 5: "\<not> (verbose_flag opts \<or> code = STATUS_BREAKPOINT)
      \<longrightarrow> considered opts tid code (Threads pinfo)
          = filter (\<lambda>t. t = tid) (map fst (Threads pinfo))"
    by (auto simp: considered_def)
  show ?thesis using 1 2 3 4 5 by blast
qed

text \<open>
  Claim C2. In the session in which process 1 starts with thread 1 (handle 11) and
  thread 2 (handle 22) is created, thread 1 faults at second chance while
  \<open>verbose_flag\<close> is set. The calls are as many as the claim says, one exception
  dump, one stack dump for each of the two threads, one termination with the exception
  code; but both stack dumps are called with handle 22, so the stack of thread 2 is
  dumped twice and the stack of the faulting thread 1 not at all.
\<close>

theorem considered_threads_not_dumped:
  "snd (snd (DebugMainLoop (quiet\<lparr>verbose_flag := True\<rparr>) []
      [Notified process_1_created all_ok, Notified thread_2_created all_ok,
       Notified crash_of_thread_1 all_ok]))
   = [SymSetOptions 50, InitializeSym 100, SymRegisterCallback64 100,
      SymLoadModuleEx 100 5 4194304, CloseHandle 5,
      ContinueDebugEvent 1 1 DBG_CONTINUE, ContinueDebugEvent 1 2 DBG_CONTINUE,
      SymRefreshModuleList 100, DumpException 100 STATUS_ACCESS_VIOLATION,
      DumpStack 100 (Some 22), DumpStack 100 (Some 22),
      TerminateProcess 100 STATUS_ACCESS_VIOLATION,
      ContinueDebugEvent 1 1 DBG_EXCEPTION_NOT_HANDLED]"
  by (simp add: run_defs session_defs)

text \<open>
  Claim C4. The session in which process 1 starts with thread 1 (handle 11), thread 2
  (handle 22) is created and thread 1 then faults at second chance: the one stack dump,
  made for the iterated thread 1, is called with handle 22, the handle of the thread
  whose creation last assigned \<open>pThreadInfo\<close>, and not with handle 11 of the thread
  the loop is at.
\<close>

theorem stack_dump_uses_left_over_handle:
  "snd (snd (DebugMainLoop quiet []
      [Notified process_1_created all_ok, Notified thread_2_created all_ok,
       Notified crash_of_thread_1 all_ok]))
   = [SymSetOptions 50, InitializeSym 100, SymRegisterCallback64 100,
      SymLoadModuleEx 100 5 4194304, CloseHandle 5,
      ContinueDebugEvent 1 1 DBG_CONTINUE, ContinueDebugEvent 1 2 DBG_CONTINUE,
      SymRefreshModuleList 100, DumpException 100 STATUS_ACCESS_VIOLATION,
      DumpStack 100 (Some 22), TerminateProcess 100 STATUS_ACCESS_VIOLATION,
      ContinueDebugEvent 1 1 DBG_EXCEPTION_NOT_HANDLED]"
  by (simp add: run_defs session_defs)

section \<open>The continuation status\<close>

text \<open>
  Claim C7, as amended. For every notification that is not an exception (process
  and thread creation and exit, module load and unload, debug string, RIP and
  unrecognised kinds) and whose handler returns, the status passed to
  \<open>ContinueDebugEvent\<close> is \<open>DBG_CONTINUE\<close>, the value the status variable is
  initialised with; \<open>DBG_EXCEPTION_NOT_HANDLED\<close> is assigned in the exception branch
  only.
\<close>

theorem resume_status_of_other_kinds:
  assumes "\<not> fFinished s" and "\<forall>code fc. u ev \<noteq> Exception code fc"
    and "handle_event opts ans s ev = Inr (s', effs, st)"
  shows "snd (snd (main_loop opts s (Notified ev ans # rest))) =
     effs @ ContinueDebugEvent (dwProcessId ev) (dwThreadId ev) DBG_CONTINUE
          # snd (snd (main_loop opts s' rest))"
  using assms status_of_other_kinds [OF assms(2,3)]
  by (simp split: prod.splits)

theorem resume_status_of_other_kinds_witness:
  "\<not> fFinished two_threads \<and> (\<forall>code fc. u thread_2_created \<noteq> Exception code fc)
   \<and> handle_event quiet all_ok two_threads thread_2_created = Inr (two_threads, [], DBG_CONTINUE)
   \<and> snd (snd (main_loop quiet two_threads [Notified thread_2_created all_ok]))
      = [ContinueDebugEvent 1 2 DBG_CONTINUE]"
proof -
  have 1: "\<not> fFinished two_threads" by (simp add: two_threads_def)
  have 2: "\<forall>code fc. u thread_2_created \<noteq> Exception code fc" by (simp add: thread_2_created_def)
  have 3: "handle_event quiet all_ok two_threads thread_2_created = Inr (two_threads, [], DBG_CONTINUE)"
    by (simp add: run_defs session_defs two_threads_def)
  from resume_status_of_other_kinds [OF 1 2 3, of "[]"] 1 2 3 show ?thesis
    by (simp add: thread_2_created_def two_threads_def)
qed

text \<open>
  The claim as stated fails: the thread-create notification of the concrete session
  is resumed with \<open>DBG_CONTINUE\<close>, not with \<open>DBG_EXCEPTION_NOT_HANDLED\<close>.
\<close>

theorem thread_create_resumed_handled_counterexample:
  "snd (snd (DebugMainLoop quiet []
       [Notified process_1_created all_ok, Notified thread_2_created all_ok])) ! 6
     = ContinueDebugEvent 1 2 DBG_CONTINUE
   \<and> ContinueDebugEvent 1 2 DBG_EXCEPTION_NOT_HANDLED
       \<notin> set (snd (snd (DebugMainLoop quiet []
                [Notified process_1_created all_ok, Notified thread_2_created all_ok])))"
  by (simp add: two_threads_reached)

section \<open>More facts about the map operations\<close>

lemma map_erase_map_store: "map_erase k (map_store k v m) = map_erase k m"
  by (induction m) (auto simp: map_erase_def)

lemma map_store_twice: "map_store k v (map_store k v' m) = map_store k v m"
  by (induction m) auto

lemma map_at_map_subscript: "map_at d k (map_subscript d k m) = map_at d k m"
  by (simp add: map_at_def map_of_map_subscript)

lemma map_at_map_store: "map_at d k (map_store k v m) = v"
  by (simp add: map_at_def map_of_map_store)

lemma map_subscript_absent: "map_of m k = None \<Longrightarrow> map_subscript d k m = map_store k d m"
  by (simp add: map_subscript_def map_at_def)

lemma map_subscript_map_store: "map_subscript d k (map_store k v m) = map_store k v m"
  by (simp add: map_subscript_def map_at_map_store map_store_twice)

lemma map_erase_map_subscript: "map_erase k (map_subscript d k m) = map_erase k m"
  by (simp add: map_subscript_def map_erase_map_store)

section \<open>The abort dump\<close>

lemma exit_process_abort:
  "handle_event opts ans s \<lparr>dwProcessId = pid, dwThreadId = tid, u = ExitProcess 3\<rparr>
   = Inr (s\<lparr>g_Processes := map_erase pid (g_Processes s),
            pThreadInfo := Indeterminate,
            fFinished := (if map_erase pid (g_Processes s) = [] then True else fFinished s)\<rparr>,
          trace opts (''EXIT_PROCESS PID=%lu TID=%lu dwExitCode=0x%lx'' @ CRLF)
          @ [DumpStack (hProcess (map_at new_PROCESS_INFO pid (g_Processes s)))
               (Some (hThread (map_at new_THREAD_INFO tid
                                 (Threads (map_at new_PROCESS_INFO pid (g_Processes s)))))),
             SymCleanup (hProcess (map_at new_PROCESS_INFO pid (g_Processes s)))]
          @ (if SymCleanup_ok ans then [] else [OutputDebug (''SymCleanup failed with 0x%08lx'' @ LF)]),
          DBG_CONTINUE)"
  by (simp add: handle_event_def on_exit_process_def Let_def map_erase_map_store
      map_erase_map_subscript map_at_map_subscript read_hThread_def map_of_map_store
      map_of_map_subscript after_process_erase_def)

text \<open>
  Claim C8, as amended. The dump on the abort exit code belongs to the process-exit
  notification: when its exit code is 3, \<open>dumpStack\<close> is called with the handle of
  the process and the handle in the record of the reporting thread, before
  \<open>SymCleanup\<close>, and the record of the process is gone afterwards. A thread-exit
  notification, whatever its exit code and whether or not the thread is the last one,
  dumps no stack.
\<close>

theorem abort_dump_at_process_exit:
  "(\<exists>s' before after.
      handle_event opts ans s \<lparr>dwProcessId = pid, dwThreadId = tid, u = ExitProcess 3\<rparr>
        = Inr (s', before
                   @ DumpStack (hProcess (map_at new_PROCESS_INFO pid (g_Processes s)))
                       (Some (hThread (map_at new_THREAD_INFO tid
                                 (Threads (map_at new_PROCESS_INFO pid (g_Processes s))))))
                   # SymCleanup (hProcess (map_at new_PROCESS_INFO pid (g_Processes s)))
                   # after, DBG_CONTINUE)
      \<and> map_of (g_Processes s') pid = None)
   \<and> (\<exists>s' effs. handle_event opts ans s \<lparr>dwProcessId = pid, dwThreadId = tid, u = ExitThread code\<rparr>
        = Inr (s', effs, DBG_CONTINUE) \<and> filter is_stack_dump effs = [])"
proof -
  have "map_of (map_erase pid (g_Processes s)) pid = None"
    by (simp add: map_of_map_erase)
  then have 1: "\<exists>s' before after.
      handle_event opts ans s \<lparr>dwProcessId = pid, dwThreadId = tid, u = ExitProcess 3\<rparr>
        = Inr (s', before
                   @ DumpStack (hProcess (map_at new_PROCESS_INFO pid (g_Processes s)))
                       (Some (hThread (map_at new_THREAD_INFO tid
                                 (Threads (map_at new_PROCESS_INFO pid (g_Processes s))))))
                   # SymCleanup (hProcess (map_at new_PROCESS_INFO pid (g_Processes s)))
                   # after, DBG_CONTINUE)
      \<and> map_of (g_Processes s') pid = None"
    unfolding exit_process_abort by fastforce
  have 2: "\<exists>s' effs. handle_event opts ans s \<lparr>dwProcessId = pid, dwThreadId = tid, u = ExitThread code\<rparr>
        = Inr (s', effs, DBG_CONTINUE) \<and> filter is_stack_dump effs = []"
    by (simp add: handle_event_def on_exit_thread_def Let_def trace_def)
  show ?thesis using 1 2 by blast
qed

text \<open>
  The claim as stated fails: process 1 has the single thread 1, which exits with
  code 3; the handler erases the record of the thread and calls nothing.
\<close>

theorem last_thread_exit_dumps_nothing_counterexample:
  "handle_event quiet all_ok
     \<lparr>g_Processes = [(1, \<lparr>hProcess = 100, Threads = [(1, \<lparr>hThread = 11\<rparr>)]\<rparr>)],
      fFinished = False, fBreakpointSignalled = False, fWowBreakpointSignalled = False,
      pThreadInfo = NodeOf 1 1\<rparr>
     \<lparr>dwProcessId = 1, dwThreadId = 1, u = ExitThread 3\<rparr>
   = Inr (\<lparr>g_Processes = [(1, \<lparr>hProcess = 100, Threads = []\<rparr>)],
      fFinished = False, fBreakpointSignalled = False, fWowBreakpointSignalled = False,
      pThreadInfo = Indeterminate\<rparr>, [], DBG_CONTINUE)"
  by (simp add: run_defs quiet_def)

section \<open>The lookup of a process that is not registered\<close>

lemma lookup_inserts:
  assumes "map_of (g_Processes s) (dwProcessId ev) = None"
    and "looks_up ev" and "\<not> passed_through opts s ev"
  shows "handle_event opts ans s ev
         = handle_event opts ans
             (s\<lparr>g_Processes := map_store (dwProcessId ev) new_PROCESS_INFO (g_Processes s)\<rparr>) ev"
  using assms
  by (cases "u ev")
    (auto simp: looks_up_def passed_through_def handle_event_def on_exception_def
       capture_stage_def on_create_thread_def on_exit_thread_def on_load_dll_def
       on_unload_dll_def on_debug_string_def first_chance_stage_def Let_def
       map_subscript_absent map_subscript_map_store
       split: prod.splits if_splits sum.splits)

lemma lookup_registers:
  assumes "map_of (g_Processes s) (dwProcessId ev) = None"
    and "looks_up ev" and "\<not> passed_through opts s ev"
  shows "map_of (g_Processes (state_after (handle_event opts ans s ev))) (dwProcessId ev)
       = Some (new_PROCESS_INFO\<lparr>Threads := threads_added ev\<rparr>)"
proof (cases "u ev")
  case (Exception code fc)
  then show ?thesis using assms
    by (auto simp: passed_through_def handle_event_def on_exception_def capture_stage_def
        first_chance_stage_def Let_def map_subscript_absent map_of_map_store threads_added_def
        new_PROCESS_INFO_def state_after_def split: prod.splits if_splits)
next
  case (CreateThread h)
  then show ?thesis using assms
    by (simp add: handle_event_def on_create_thread_def Let_def map_subscript_absent
        map_of_map_store map_at_map_store threads_added_def store_hThread_def
        new_PROCESS_INFO_def new_THREAD_INFO_def map_subscript_def map_at_def state_after_def)
next
  case (ExitThread c)
  then show ?thesis using assms
    by (simp add: handle_event_def on_exit_thread_def Let_def map_subscript_absent
        map_of_map_store map_at_map_store threads_added_def map_erase_def new_PROCESS_INFO_def
        state_after_def)
next
  case (LoadDll f b)
  then show ?thesis using assms
    by (simp add: handle_event_def on_load_dll_def Let_def map_subscript_absent
        map_of_map_store threads_added_def new_PROCESS_INFO_def state_after_def)
next
  case (UnloadDll b)
  then show ?thesis using assms
    by (simp add: handle_event_def on_unload_dll_def Let_def map_subscript_absent
        map_of_map_store threads_added_def new_PROCESS_INFO_def state_after_def)
next
  case (DebugString a w n)
  then show ?thesis using assms(1)
    by (simp add: handle_event_def on_debug_string_def Let_def map_subscript_absent
        map_of_map_store threads_added_def new_PROCESS_INFO_def state_after_def
        split: sum.splits)
qed (use assms in \<open>simp_all add: looks_up_def\<close>)

lemma readProcessString_returns:
  assumes "length (snd answer) \<le> L"
  shows "\<exists>buf. readProcessString answer h a L = Inr ([ReadProcessMemory h a L], buf)"
  using readProcessString_value [OF assms, of "fst answer" h a] by simp

lemma lookup_returns:
  assumes "looks_up ev" and "read_within_request ans ev"
  shows "(\<exists>s' effs st. handle_event opts ans s ev = Inr (s', effs, st))
         \<longleftrightarrow> \<not> wide_string_asserted ans ev"
proof (cases "u ev")
  case (DebugString a w n)
  with assms(2) have len: "length (snd (ReadProcessMemory_answer ans)) \<le> unat n"
    by (simp add: read_within_request_def)
  from readProcessString_returns [OF len] obtain buf where
    "readProcessString (ReadProcessMemory_answer ans)
       (hProcess (map_at new_PROCESS_INFO (dwProcessId ev)
          (map_subscript new_PROCESS_INFO (dwProcessId ev) (g_Processes s)))) a (unat n)
     = Inr ([ReadProcessMemory (hProcess (map_at new_PROCESS_INFO (dwProcessId ev)
          (map_subscript new_PROCESS_INFO (dwProcessId ev) (g_Processes s)))) a (unat n)], buf)"
    by blast
  then show ?thesis using DebugString
    by (auto simp: handle_event_def on_debug_string_def Let_def wide_string_asserted_def)
qed (use assms in \<open>auto simp: looks_up_def wide_string_asserted_def handle_event_def
       intro: prod_cases3\<close>)

lemma passes_without_lookup:
  assumes "passed_through opts s ev"
  shows "\<exists>s' effs st. handle_event opts ans s ev = Inr (s', effs, st)
           \<and> g_Processes s' = g_Processes s"
  using assms
  by (cases "u ev")
     (auto simp: passed_through_def handle_event_def on_exception_def first_chance_stage_def
        Let_def split: if_splits)

text \<open>
  Claim C10, as amended. Take a notification of a process that is not registered,
  of a kind whose handler looks the process up, the read of a debug string keeping
  to the requested length. Unless it is an exception passed through at first chance,
  the handler does what it does on the registry in which the process has a
  value-initialised record (null handle, no threads); the registry it leaves holds
  this record for the process, with the thread a thread-create adds; and it returns
  to the loop, except for a wide debug string in a build with assertions. An
  exception passed through at first chance (\<open>first_chance\<close> off, or the first
  first-chance breakpoint with \<open>breakpoint_flag\<close> off) returns with the registry as
  it was.
\<close>

theorem lookup_of_unregistered_process:
  assumes "map_of (g_Processes s) (dwProcessId ev) = None"
    and "looks_up ev" and "read_within_request ans ev"
  shows "(\<not> passed_through opts s ev \<longrightarrow>
            handle_event opts ans s ev
            = handle_event opts ans
                (s\<lparr>g_Processes := map_store (dwProcessId ev) new_PROCESS_INFO (g_Processes s)\<rparr>) ev
          \<and> map_of (g_Processes (state_after (handle_event opts ans s ev))) (dwProcessId ev)
            = Some (new_PROCESS_INFO\<lparr>Threads := threads_added ev\<rparr>)
          \<and> ((\<exists>s' effs st. handle_event opts ans s ev = Inr (s', effs, st))
               \<longleftrightarrow> \<not> wide_string_asserted ans ev))
       \<and> (passed_through opts s ev \<longrightarrow>
            (\<exists>s' effs st. handle_event opts ans s ev = Inr (s', effs, st)
               \<and> g_Processes s' = g_Processes s))"
  using lookup_inserts [OF assms(1,2)] lookup_registers [OF assms(1,2)]
    lookup_returns [OF assms(2,3)] passes_without_lookup
  by blast

theorem lookup_of_unregistered_process_witness:
  "map_of (g_Processes (start_session [])) (dwProcessId crash_of_thread_1) = None
   \<and> looks_up crash_of_thread_1
   \<and> read_within_request all_ok crash_of_thread_1
   \<and> \<not> passed_through quiet (start_session []) crash_of_thread_1
   \<and> \<not> wide_string_asserted all_ok crash_of_thread_1
   \<and> handle_event quiet all_ok (start_session []) crash_of_thread_1
     = Inr ((start_session []) \<lparr>g_Processes := [(1, \<lparr>hProcess = NULL, Threads = []\<rparr>)]\<rparr>,
            [SymRefreshModuleList NULL, DumpException NULL STATUS_ACCESS_VIOLATION,
             TerminateProcess NULL STATUS_ACCESS_VIOLATION], DBG_EXCEPTION_NOT_HANDLED)"
proof -
  have 1: "map_of (g_Processes (start_session [])) (dwProcessId crash_of_thread_1) = None"
    by (simp add: start_session_def)
  have 2: "looks_up crash_of_thread_1"
    by (simp add: looks_up_def crash_of_thread_1_def)
  have 3: "read_within_request all_ok crash_of_thread_1"
    by (simp add: read_within_request_def crash_of_thread_1_def)
  have 4: "\<not> passed_through quiet (start_session []) crash_of_thread_1"
    by (simp add: passed_through_def crash_of_thread_1_def)
  have 5: "\<not> wide_string_asserted all_ok crash_of_thread_1"
    by (simp add: wide_string_asserted_def crash_of_thread_1_def)
  have "handle_event quiet all_ok
          ((start_session []) \<lparr>g_Processes := map_store (dwProcessId crash_of_thread_1)
              new_PROCESS_INFO (g_Processes (start_session []))\<rparr>) crash_of_thread_1
     = Inr ((start_session []) \<lparr>g_Processes := [(1, \<lparr>hProcess = NULL, Threads = []\<rparr>)]\<rparr>,
            [SymRefreshModuleList NULL, DumpException NULL STATUS_ACCESS_VIOLATION,
             TerminateProcess NULL STATUS_ACCESS_VIOLATION], DBG_EXCEPTION_NOT_HANDLED)"
    by (simp add: run_defs session_defs)
  with lookup_of_unregistered_process [OF 1 2 3, of quiet] 1 2 3 4 5 show ?thesis by simp
qed

text \<open>
  The claim as stated fails in two ways. With \<open>first_chance\<close> off, a first-chance
  access violation of the unregistered process 9 leaves the branch at line 244, before
  the lookup: nothing is inserted. And a wide debug string of the unregistered
  process 9, in a build with assertions, trips \<open>assert (!fUnicode)\<close>: the lookup has
  inserted the record, but the handling fails.
\<close>

theorem unregistered_process_counterexample:
  "handle_event quiet all_ok (start_session [])
       \<lparr>dwProcessId = 9, dwThreadId = 1, u = Exception STATUS_ACCESS_VIOLATION 1\<rparr>
     = Inr (start_session [], [], DBG_EXCEPTION_NOT_HANDLED)
   \<and> map_of (g_Processes (start_session [])) 9 = None
   \<and> handle_event quiet all_ok (start_session [])
       \<lparr>dwProcessId = 9, dwThreadId = 1, u = DebugString 4096 1 5\<rparr>
     = Inl (AssertionFailed,
            (start_session []) \<lparr>g_Processes := [(9, \<lparr>hProcess = NULL, Threads = []\<rparr>)]\<rparr>, [])"
  by (simp add: run_defs session_defs)

section \<open>The loop\<close>

lemma main_loop_Waiting_running:
  "main_loop opts s ws = (Waiting, s1, tr) \<Longrightarrow> \<not> fFinished s \<and> \<not> fFinished s1"
proof (induction ws arbitrary: s tr)
  case Nil
  then show ?case by (simp split: if_splits)
next
  case (Cons w ws)
  then show ?case
    by (cases w) (auto split: if_splits sum.splits prod.splits)
qed

lemma main_loop_append:
  "main_loop opts s pre = (Waiting, s1, tr) \<Longrightarrow>
   main_loop opts s (pre @ rest)
   = (case main_loop opts s1 rest of (out, s2, later) \<Rightarrow> (out, s2, tr @ later))"
proof (induction pre arbitrary: s tr)
  case Nil
  then show ?case by (auto split: if_splits prod.splits)
next
  case (Cons w pre)
  show ?case
  proof (cases w)
    case WaitFailed
    with Cons.prems show ?thesis by (simp split: if_splits)
  next
    case (Notified ev ans)
    with Cons.prems obtain s' effs st tr' where
      h: "handle_event opts ans s ev = Inr (s', effs, st)" and "\<not> fFinished s"
      and m: "main_loop opts s' pre = (Waiting, s1, tr')"
      and tr: "tr = effs @ ContinueDebugEvent (dwProcessId ev) (dwThreadId ev) st # tr'"
      by (auto split: if_splits sum.splits prod.splits)
    from Cons.IH [OF m] h \<open>\<not> fFinished s\<close> tr Notified show ?thesis
      by (simp split: prod.splits)
  qed
qed

lemma finished_iff:
  assumes "\<not> fFinished s" and "handle_event opts ans s ev = Inr (s', effs, st)"
  shows "fFinished s' \<longleftrightarrow> (\<exists>code. u ev = ExitProcess code) \<and> g_Processes s' = []"
  using assms
  by (cases "u ev")
     (auto simp: handle_event_def on_exception_def capture_stage_def first_chance_stage_def
        on_create_thread_def on_create_process_def on_exit_thread_def on_exit_process_def
        on_load_dll_def on_unload_dll_def on_debug_string_def Let_def
        split: if_splits sum.splits prod.splits)

lemma returns_TRUE_only_if:
  "\<not> fFinished s \<Longrightarrow> fst (main_loop opts s ws) = Returned True \<Longrightarrow>
   \<exists>pre ev ans post s1 tr s' effs st.
     ws = pre @ Notified ev ans # post \<and> main_loop opts s pre = (Waiting, s1, tr)
     \<and> handle_event opts ans s1 ev = Inr (s', effs, st) \<and> fFinished s'"
proof (induction ws arbitrary: s)
  case Nil
  then show ?case by simp
next
  case (Cons w ws)
  show ?case
  proof (cases w)
    case WaitFailed
    with Cons.prems show ?thesis by simp
  next
    case (Notified ev ans)
    with Cons.prems obtain s' effs st where
      h: "handle_event opts ans s ev = Inr (s', effs, st)"
      and r: "fst (main_loop opts s' ws) = Returned True"
      by (auto split: sum.splits prod.splits)
    show ?thesis
    proof (cases "fFinished s'")
      case True
      have "w # ws = [] @ Notified ev ans # ws" using Notified by simp
      moreover have "main_loop opts s [] = (Waiting, s, [])" using Cons.prems(1) by simp
      ultimately show ?thesis using h True by blast
    next
      case False
      from Cons.IH [OF False r] obtain pre ev' ans' post s1 tr s2 effs' st' where
        ws: "ws = pre @ Notified ev' ans' # post"
        and m: "main_loop opts s' pre = (Waiting, s1, tr)"
        and h': "handle_event opts ans' s1 ev' = Inr (s2, effs', st')" and f: "fFinished s2"
        by blast
      have "w # ws = (Notified ev ans # pre) @ Notified ev' ans' # post"
        using Notified ws by simp
      moreover have "main_loop opts s (Notified ev ans # pre)
          = (Waiting, s1, effs @ ContinueDebugEvent (dwProcessId ev) (dwThreadId ev) st # tr)"
        using Cons.prems(1) h m by simp
      ultimately show ?thesis using h' f by blast
    qed
  qed
qed

lemma main_loop_finished: "fFinished s \<Longrightarrow> main_loop opts s ws = (Returned True, s, [])"
  by (cases "(opts, s, ws)" rule: main_loop.cases) simp_all

lemma returns_TRUE_if:
  assumes "main_loop opts s pre = (Waiting, s1, tr)"
    and "handle_event opts ans s1 ev = Inr (s', effs, st)" and "fFinished s'"
  shows "fst (main_loop opts s (pre @ Notified ev ans # post)) = Returned True"
proof -
  have "\<not> fFinished s1" using main_loop_Waiting_running [OF assms(1)] by simp
  moreover have "fst (main_loop opts s' post) = Returned True"
    using assms(3) by (simp add: main_loop_finished)
  ultimately show ?thesis
    using main_loop_append [OF assms(1), of "Notified ev ans # post"] assms(2)
    by (simp split: prod.splits)
qed

lemma keeps_waiting:
  assumes "main_loop opts s pre = (Waiting, s1, tr)"
    and "handle_event opts ans s1 ev = Inr (s', effs, st)" and "\<not> fFinished s'"
  shows "main_loop opts s (pre @ [Notified ev ans])
         = (Waiting, s', tr @ effs @ [ContinueDebugEvent (dwProcessId ev) (dwThreadId ev) st])"
proof -
  have "\<not> fFinished s1" using main_loop_Waiting_running [OF assms(1)] by simp
  then show ?thesis
    using main_loop_append [OF assms(1), of "[Notified ev ans]"] assms(2,3)
    by simp
qed

lemma failed_initialisation_ends:
  assumes "main_loop opts s pre = (Waiting, s1, tr)"
    and "u ev = CreateProcessInfo hFile hProc hThr base" and "\<not> InitializeSym_ok ans"
  shows "fst (main_loop opts s (pre @ [Notified ev ans])) = Ended ExitFailure"
proof -
  have "\<not> fFinished s1" using main_loop_Waiting_running [OF assms(1)] by simp
  moreover have "\<exists>s' effs. handle_event opts ans s1 ev = Inl (ExitFailure, s', effs)"
    using assms(2,3) by (simp add: handle_event_def on_create_process_def Let_def)
  ultimately show ?thesis
    using main_loop_append [OF assms(1), of "[Notified ev ans]"]
    by (auto split: prod.splits)
qed

text \<open>
  Claim C1, as amended. \<open>DebugMainLoop\<close> returns \<open>TRUE\<close> exactly when a process-exit
  notification, received while the loop is waiting, leaves the registry empty. After
  every other notification whose handler returns, and after a process-exit that
  leaves a record in the registry, the loop resumes the reporting thread and waits
  for the next event. A process-create notification during which \<open>InitializeSym\<close>
  fails ends the host program with \<open>exit (EXIT_FAILURE)\<close> instead.
\<close>

theorem DebugMainLoop_returns_TRUE:
  "(fst (DebugMainLoop opts g ws) = Returned True \<longleftrightarrow>
      (\<exists>pre ev ans post s tr s' effs st code.
         ws = pre @ Notified ev ans # post \<and> DebugMainLoop opts g pre = (Waiting, s, tr)
         \<and> u ev = ExitProcess code \<and> handle_event opts ans s ev = Inr (s', effs, st)
         \<and> g_Processes s' = []))
   \<and> (\<forall>pre ev ans s tr s' effs st.
         DebugMainLoop opts g pre = (Waiting, s, tr)
         \<and> handle_event opts ans s ev = Inr (s', effs, st)
         \<and> ((\<forall>code. u ev \<noteq> ExitProcess code) \<or> g_Processes s' \<noteq> [])
         \<longrightarrow> DebugMainLoop opts g (pre @ [Notified ev ans])
             = (Waiting, s', tr @ effs @ [ContinueDebugEvent (dwProcessId ev) (dwThreadId ev) st]))
   \<and> (\<forall>pre ev ans s tr hFile hProc hThr lpBaseOfImage.
         DebugMainLoop opts g pre = (Waiting, s, tr)
         \<and> u ev = CreateProcessInfo hFile hProc hThr lpBaseOfImage \<and> \<not> InitializeSym_ok ans
         \<longrightarrow> fst (DebugMainLoop opts g (pre @ [Notified ev ans])) = Ended ExitFailure)"
proof (intro conjI iffI allI impI)
  assume "fst (DebugMainLoop opts g ws) = Returned True"
  then have r: "fst (main_loop opts (start_session g) ws) = Returned True"
    by (simp add: DebugMainLoop_def)
  have nf: "\<not> fFinished (start_session g)" by (simp add: start_session_def)
  from returns_TRUE_only_if [OF nf r] obtain pre ev ans post s1 tr s' effs st where
    ws: "ws = pre @ Notified ev ans # post"
    and m: "main_loop opts (start_session g) pre = (Waiting, s1, tr)"
    and h: "handle_event opts ans s1 ev = Inr (s', effs, st)" and f: "fFinished s'"
    by blast
  have "\<not> fFinished s1" using main_loop_Waiting_running [OF m] by simp
  from finished_iff [OF this h] f obtain code where "u ev = ExitProcess code" "g_Processes s' = []"
    by blast
  with ws m h show "\<exists>pre ev ans post s tr s' effs st code.
         ws = pre @ Notified ev ans # post \<and> DebugMainLoop opts g pre = (Waiting, s, tr)
         \<and> u ev = ExitProcess code \<and> handle_event opts ans s ev = Inr (s', effs, st)
         \<and> g_Processes s' = []"
    unfolding DebugMainLoop_def by blast
next
  assume "\<exists>pre ev ans post s tr s' effs st code.
         ws = pre @ Notified ev ans # post \<and> DebugMainLoop opts g pre = (Waiting, s, tr)
         \<and> u ev = ExitProcess code \<and> handle_event opts ans s ev = Inr (s', effs, st)
         \<and> g_Processes s' = []"
  then obtain pre ev ans post s tr s' effs st code where
    ws: "ws = pre @ Notified ev ans # post"
    and m: "main_loop opts (start_session g) pre = (Waiting, s, tr)"
    and u: "u ev = ExitProcess code"
    and h: "handle_event opts ans s ev = Inr (s', effs, st)" and e: "g_Processes s' = []"
    unfolding DebugMainLoop_def by blast
  have "\<not> fFinished s" using main_loop_Waiting_running [OF m] by simp
  from finished_iff [OF this h] u e have "fFinished s'" by simp
  from returns_TRUE_if [OF m h this] ws show "fst (DebugMainLoop opts g ws) = Returned True"
    by (simp add: DebugMainLoop_def)
next
  fix pre ev ans s tr s' effs st
  assume a: "DebugMainLoop opts g pre = (Waiting, s, tr)
         \<and> handle_event opts ans s ev = Inr (s', effs, st)
         \<and> ((\<forall>code. u ev \<noteq> ExitProcess code) \<or> g_Processes s' \<noteq> [])"
  then have m: "main_loop opts (start_session g) pre = (Waiting, s, tr)"
    and h: "handle_event opts ans s ev = Inr (s', effs, st)"
    by (simp_all add: DebugMainLoop_def)
  have "\<not> fFinished s" using main_loop_Waiting_running [OF m] by simp
  from finished_iff [OF this h] a have "\<not> fFinished s'" by blast
  from keeps_waiting [OF m h this]
  show "DebugMainLoop opts g (pre @ [Notified ev ans])
             = (Waiting, s', tr @ effs @ [ContinueDebugEvent (dwProcessId ev) (dwThreadId ev) st])"
    by (simp add: DebugMainLoop_def)
next
  fix pre ev ans s tr hFile hProc hThr lpBaseOfImage
  assume a: "DebugMainLoop opts g pre = (Waiting, s, tr)
         \<and> u (ev :: DEBUG_EVENT) = CreateProcessInfo hFile hProc hThr lpBaseOfImage
         \<and> \<not> InitializeSym_ok (ans :: answers)"
  then have m: "main_loop opts (start_session g) pre = (Waiting, s, tr)"
    by (simp add: DebugMainLoop_def)
  from failed_initialisation_ends [OF m] a
  show "fst (DebugMainLoop opts g (pre @ [Notified ev ans])) = Ended ExitFailure"
    by (simp add: DebugMainLoop_def)
qed

theorem DebugMainLoop_returns_TRUE_witness:
  "DebugMainLoop quiet [] [Notified process_1_created all_ok, Notified thread_2_created all_ok]
     = (Waiting, two_threads,
        [SymSetOptions 50, InitializeSym 100, SymRegisterCallback64 100,
         SymLoadModuleEx 100 5 4194304, CloseHandle 5,
         ContinueDebugEvent 1 1 DBG_CONTINUE, ContinueDebugEvent 1 2 DBG_CONTINUE])
   \<and> u process_1_exited = ExitProcess STATUS_ACCESS_VIOLATION
   \<and> handle_event quiet all_ok two_threads process_1_exited
     = Inr (two_threads\<lparr>g_Processes := [], fFinished := True, pThreadInfo := Indeterminate\<rparr>,
            [SymCleanup 100], DBG_CONTINUE)
   \<and> fst (DebugMainLoop quiet []
        [Notified process_1_created all_ok, Notified thread_2_created all_ok,
         Notified process_1_exited all_ok]) = Returned True"
proof -
  let ?pre = "[Notified process_1_created all_ok, Notified thread_2_created all_ok]"
  let ?tr = "[SymSetOptions 50, InitializeSym 100, SymRegisterCallback64 100,
         SymLoadModuleEx 100 5 4194304, CloseHandle 5,
         ContinueDebugEvent 1 1 DBG_CONTINUE, ContinueDebugEvent 1 2 DBG_CONTINUE]"
  let ?s' = "two_threads\<lparr>g_Processes := [], fFinished := True, pThreadInfo := Indeterminate\<rparr>"
  have 1: "DebugMainLoop quiet [] ?pre = (Waiting, two_threads, ?tr)"
    by (rule two_threads_reached)
  have 2: "u process_1_exited = ExitProcess STATUS_ACCESS_VIOLATION"
    by (simp add: process_1_exited_def)
  have 3: "handle_event quiet all_ok two_threads process_1_exited
           = Inr (?s', [SymCleanup 100], DBG_CONTINUE)"
    by (simp add: run_defs session_defs two_threads_def)
  have 4: "g_Processes ?s' = []" by simp
  have "\<exists>pre ev ans post s tr s' effs st code.
         ?pre @ [Notified process_1_exited all_ok] = pre @ Notified ev ans # post
         \<and> DebugMainLoop quiet [] pre = (Waiting, s, tr)
         \<and> u ev = ExitProcess code \<and> handle_event quiet ans s ev = Inr (s', effs, st)
         \<and> g_Processes s' = []"
    by (intro exI conjI) (rule refl, rule 1, rule 2, rule 3, rule 4)
  from DebugMainLoop_returns_TRUE [of quiet "[]" "?pre @ [Notified process_1_exited all_ok]", THEN conjunct1, THEN iffD2, OF this]
  have "fst (DebugMainLoop quiet [] (?pre @ [Notified process_1_exited all_ok])) = Returned True" .
  with 1 2 3 show ?thesis by simp
qed

text \<open>
  The claim as stated fails: a process-create notification during which
  \<open>InitializeSym\<close> fails ends the host program with \<open>exit (EXIT_FAILURE)\<close>, once the
  process and its thread are registered and the failure is reported; the loop
  neither returns nor waits for the next event.
\<close>

theorem failed_symbol_initialisation_counterexample:
  "DebugMainLoop quiet [] [Notified process_1_created (all_ok\<lparr>InitializeSym_ok := False\<rparr>)]
   = (Ended ExitFailure,
      (start_session [])
        \<lparr>g_Processes := [(1, \<lparr>hProcess = 100, Threads = [(1, \<lparr>hThread = 11\<rparr>)]\<rparr>)],
         pThreadInfo := NodeOf 1 1\<rparr>,
      [SymSetOptions 50, InitializeSym 100,
       OutputDebug (''error: SymInitialize failed: 0x%08lx'' @ LF)])"
  by (simp add: run_defs session_defs)

section \<open>The attach breakpoint\<close>

lemma flag_kept:
  assumes "fBreakpointSignalled s \<or> \<not> first_chance_breakpoint ev"
    and "handle_event opts ans s ev = Inr (s', effs, st)"
  shows "fBreakpointSignalled s' = fBreakpointSignalled s"
  using assms
  by (cases "u ev")
     (auto simp: handle_event_def on_exception_def capture_stage_def first_chance_stage_def
        on_create_thread_def on_create_process_def on_exit_thread_def on_exit_process_def
        on_load_dll_def on_unload_dll_def on_debug_string_def Let_def first_chance_breakpoint_def
        split: if_splits sum.splits prod.splits)

lemma flag_kept_while_waiting:
  "main_loop opts s pre = (Waiting, s1, tr) \<Longrightarrow> no_first_chance_breakpoint pre \<Longrightarrow>
   fBreakpointSignalled s1 = fBreakpointSignalled s"
proof (induction pre arbitrary: s tr)
  case Nil
  then show ?case by (simp split: if_splits)
next
  case (Cons w pre)
  show ?case
  proof (cases w)
    case WaitFailed
    with Cons.prems show ?thesis by (simp split: if_splits)
  next
    case (Notified ev ans)
    with Cons.prems obtain s' effs st tr' where
      h: "handle_event opts ans s ev = Inr (s', effs, st)"
      and m: "main_loop opts s' pre = (Waiting, s1, tr')"
      by (auto split: if_splits sum.splits prod.splits)
    from Cons.prems(2) Notified have "\<not> first_chance_breakpoint ev" "no_first_chance_breakpoint pre"
      by simp_all
    with Cons.IH [OF m] flag_kept [OF _ h] show ?thesis by simp
  qed
qed

lemma attach_passed:
  assumes "\<not> breakpoint_flag opts" and "\<not> fBreakpointSignalled s" and "first_chance_breakpoint ev"
  shows "handle_event opts ans s ev
     = Inr (s\<lparr>fBreakpointSignalled := True\<rparr>,
            trace opts (''EXCEPTION PID=%lu TID=%lu ExceptionCode=0x%lx dwFirstChance=%lu'' @ CRLF)
            @ (if hEvent opts \<noteq> NULL then [SetEvent (hEvent opts), CloseHandle (hEvent opts)] else []),
            DBG_CONTINUE)"
  using assms
  by (cases "u ev")
     (auto simp: handle_event_def on_exception_def first_chance_stage_def Let_def
        first_chance_breakpoint_def)

text \<open>
  Claim C3. With \<open>breakpoint_flag\<close> off, the first first-chance breakpoint exception
  that reaches a call of \<open>DebugMainLoop\<close>, whatever process and thread report it and
  whatever the registry holds, is resumed with \<open>DBG_CONTINUE\<close>, and handling it
  calls neither \<open>dumpException\<close> nor \<open>dumpStack\<close>.
\<close>

theorem first_breakpoint_passed_silently:
  assumes "\<not> breakpoint_flag opts" and "no_first_chance_breakpoint pre"
    and "DebugMainLoop opts g pre = (Waiting, s, tr)" and "first_chance_breakpoint ev"
  shows "\<exists>s' effs. handle_event opts ans s ev = Inr (s', effs, DBG_CONTINUE)
     \<and> filter is_capture effs = []
     \<and> DebugMainLoop opts g (pre @ [Notified ev ans])
       = (Waiting, s', tr @ effs @ [ContinueDebugEvent (dwProcessId ev) (dwThreadId ev) DBG_CONTINUE])"
proof -
  from assms(3) have m: "main_loop opts (start_session g) pre = (Waiting, s, tr)"
    by (simp add: DebugMainLoop_def)
  have "fBreakpointSignalled s = fBreakpointSignalled (start_session g)"
    by (rule flag_kept_while_waiting [OF m assms(2)])
  then have nf: "\<not> fBreakpointSignalled s" by (simp add: start_session_def)
  let ?effs = "trace opts (''EXCEPTION PID=%lu TID=%lu ExceptionCode=0x%lx dwFirstChance=%lu'' @ CRLF)
            @ (if hEvent opts \<noteq> NULL then [SetEvent (hEvent opts), CloseHandle (hEvent opts)] else [])"
  have h: "handle_event opts ans s ev = Inr (s\<lparr>fBreakpointSignalled := True\<rparr>, ?effs, DBG_CONTINUE)"
    by (rule attach_passed [OF assms(1) nf assms(4)])
  have "\<not> fFinished s" using main_loop_Waiting_running [OF m] by simp
  then have "\<not> fFinished (s\<lparr>fBreakpointSignalled := True\<rparr>)" by simp
  from keeps_waiting [OF m h this]
  have "DebugMainLoop opts g (pre @ [Notified ev ans])
       = (Waiting, s\<lparr>fBreakpointSignalled := True\<rparr>,
          tr @ ?effs @ [ContinueDebugEvent (dwProcessId ev) (dwThreadId ev) DBG_CONTINUE])"
    by (simp add: DebugMainLoop_def)
  moreover have "filter is_capture ?effs = []" by (simp add: trace_def)
  ultimately show ?thesis using h by blast
qed

theorem first_breakpoint_passed_silently_witness:
  "\<not> breakpoint_flag quiet
   \<and> no_first_chance_breakpoint [Notified process_1_created all_ok, Notified thread_2_created all_ok]
   \<and> first_chance_breakpoint attach_breakpoint
   \<and> DebugMainLoop quiet []
       [Notified process_1_created all_ok, Notified thread_2_created all_ok,
        Notified attach_breakpoint all_ok]
     = (Waiting, two_threads\<lparr>fBreakpointSignalled := True\<rparr>,
        [SymSetOptions 50, InitializeSym 100, SymRegisterCallback64 100,
         SymLoadModuleEx 100 5 4194304, CloseHandle 5,
         ContinueDebugEvent 1 1 DBG_CONTINUE, ContinueDebugEvent 1 2 DBG_CONTINUE,
         SetEvent 7, CloseHandle 7, ContinueDebugEvent 1 1 DBG_CONTINUE])"
proof -
  let ?pre = "[Notified process_1_created all_ok, Notified thread_2_created all_ok]"
  have 1: "\<not> breakpoint_flag quiet" by (simp add: quiet_def)
  have 2: "no_first_chance_breakpoint ?pre"
    by (simp add: first_chance_breakpoint_def process_1_created_def thread_2_created_def)
  have 3: "first_chance_breakpoint attach_breakpoint"
    by (simp add: first_chance_breakpoint_def attach_breakpoint_def)
  have 4: "handle_event quiet all_ok two_threads attach_breakpoint
     = Inr (two_threads\<lparr>fBreakpointSignalled := True\<rparr>, [SetEvent 7, CloseHandle 7], DBG_CONTINUE)"
    by (simp add: run_defs session_defs two_threads_def)
  from first_breakpoint_passed_silently [OF 1 2 two_threads_reached 3, of all_ok] 4 1 2 3 show ?thesis
    by (simp add: attach_breakpoint_def)
qed

section \<open>The attach signal\<close>

lemma dump_threads_no_signal:
  "count_list (dump_threads opts tid code hp t ts) (SetEvent h) = 0
   \<and> count_list (dump_threads opts tid code hp t ts) (CloseHandle h) = 0"
  by (induction ts) auto

lemma readProcessString_effects:
  "readProcessString answer hp a n = Inr (reads, buf) \<Longrightarrow> reads = [ReadProcessMemory hp a n]"
  by (auto simp: readProcessString_def Let_def split: if_splits)

lemma no_signal_elsewhere:
  assumes "fBreakpointSignalled s \<or> \<not> first_chance_breakpoint ev"
    and "handle_event opts ans s ev = Inr (s', effs, st)"
  shows "count_list effs (SetEvent h) = 0
     \<and> (file_handle ev \<noteq> h \<longrightarrow> count_list effs (CloseHandle h) = 0)"
proof (cases "u ev")
  case (Exception code fc)
  then show ?thesis using assms
    by (auto simp: handle_event_def on_exception_def capture_stage_def first_chance_stage_def
        Let_def first_chance_breakpoint_def trace_def dump_threads_no_signal
        split: if_splits prod.splits)
next
  case (CreateProcessInfo hFile hProc hThr base)
  then show ?thesis using assms
    by (auto simp: handle_event_def on_create_process_def Let_def trace_def loadModule_def
        file_handle_def split: if_splits)
next
  case (LoadDll hFile base)
  then show ?thesis using assms
    by (auto simp: handle_event_def on_load_dll_def Let_def trace_def loadModule_def
        file_handle_def split: if_splits)
next
  case (DebugString a w n)
  then show ?thesis using assms
    by (auto simp: handle_event_def on_debug_string_def Let_def trace_def
        dest!: readProcessString_effects split: if_splits sum.splits)
qed (use assms in \<open>auto simp: handle_event_def on_create_thread_def on_exit_thread_def
       on_exit_process_def on_unload_dll_def Let_def trace_def split: if_splits\<close>)

lemma signal_at_attach:
  assumes "\<not> fBreakpointSignalled s" and "first_chance_breakpoint ev" and "hEvent opts \<noteq> NULL"
  shows "\<exists>s' effs st. handle_event opts ans s ev = Inr (s', effs, st)
     \<and> fBreakpointSignalled s'
     \<and> count_list effs (SetEvent (hEvent opts)) = 1
     \<and> count_list effs (CloseHandle (hEvent opts)) = 1"
  using assms
  by (cases "u ev")
     (auto simp: handle_event_def on_exception_def capture_stage_def first_chance_stage_def
        Let_def first_chance_breakpoint_def trace_def dump_threads_no_signal
        split: if_splits prod.splits)

lemma no_signal_at_end:
  assumes "handle_event opts ans s ev = Inl (f, s', effs)"
  shows "count_list effs (SetEvent h) = 0 \<and> count_list effs (CloseHandle h) = 0"
  using assms
  by (cases "u ev")
     (auto simp: handle_event_def on_create_process_def on_debug_string_def Let_def trace_def
        split: if_splits sum.splits)

lemma no_file_handle_append:
  "no_file_handle h (xs @ ys) = (no_file_handle h xs \<and> no_file_handle h ys)"
  by (induction h xs rule: no_file_handle.induct) auto

lemma no_signal_in_loop:
  "fBreakpointSignalled s \<or> no_first_chance_breakpoint ws \<Longrightarrow> no_file_handle h ws \<Longrightarrow>
   count_list (snd (snd (main_loop opts s ws))) (SetEvent h) = 0
   \<and> count_list (snd (snd (main_loop opts s ws))) (CloseHandle h) = 0"
proof (induction ws arbitrary: s)
  case Nil
  then show ?case by simp
next
  case (Cons w ws)
  show ?case
  proof (cases w)
    case WaitFailed
    then show ?thesis by simp
  next
    case (Notified ev ans)
    show ?thesis
    proof (cases "handle_event opts ans s ev")
      case (Inl r)
      then obtain f s' effs where "handle_event opts ans s ev = Inl (f, s', effs)"
        by (cases r) auto
      with no_signal_at_end [OF this, of h] Notified show ?thesis by simp
    next
      case (Inr r)
      then obtain s' effs st where h: "handle_event opts ans s ev = Inr (s', effs, st)"
        by (cases r) auto
      from Cons.prems Notified have quiet: "fBreakpointSignalled s \<or> \<not> first_chance_breakpoint ev"
        and fh: "file_handle ev \<noteq> h" and rest: "no_file_handle h ws"
        by auto
      have "fBreakpointSignalled s' \<or> no_first_chance_breakpoint ws"
        using Cons.prems(1) Notified flag_kept [OF quiet h] by auto
      from Cons.IH [OF this rest] no_signal_elsewhere [OF quiet h, of h] fh h Notified
      show ?thesis by (auto split: prod.splits)
    qed
  qed
qed

text \<open>
  Claim C9. Let \<open>hEvent\<close> be configured, and let no notification of the session carry
  the same handle value as its file handle (\<open>loadModule\<close> closes those). When the
  first first-chance breakpoint of a call of \<open>DebugMainLoop\<close> is handled, \<open>SetEvent\<close>
  and \<open>CloseHandle\<close> are each called once on \<open>hEvent\<close>; neither is called on it before,
  and in the whole session, whatever follows, each is called on it exactly once.
\<close>

theorem attach_signal_once:
  assumes "hEvent opts \<noteq> NULL" and "no_first_chance_breakpoint pre"
    and "DebugMainLoop opts g pre = (Waiting, s, tr)" and "first_chance_breakpoint ev"
    and "no_file_handle (hEvent opts) (pre @ post)"
  shows "\<exists>s' effs st. handle_event opts ans s ev = Inr (s', effs, st)
     \<and> count_list effs (SetEvent (hEvent opts)) = 1
     \<and> count_list effs (CloseHandle (hEvent opts)) = 1
     \<and> count_list tr (SetEvent (hEvent opts)) = 0
     \<and> count_list tr (CloseHandle (hEvent opts)) = 0
     \<and> count_list (snd (snd (DebugMainLoop opts g (pre @ Notified ev ans # post))))
          (SetEvent (hEvent opts)) = 1
     \<and> count_list (snd (snd (DebugMainLoop opts g (pre @ Notified ev ans # post))))
          (CloseHandle (hEvent opts)) = 1"
proof -
  let ?h = "hEvent opts"
  from assms(3) have m: "main_loop opts (start_session g) pre = (Waiting, s, tr)"
    by (simp add: DebugMainLoop_def)
  from assms(5) have fpre: "no_file_handle ?h pre" and fpost: "no_file_handle ?h post"
    by (simp_all add: no_file_handle_append)
  have "fBreakpointSignalled s = fBreakpointSignalled (start_session g)"
    by (rule flag_kept_while_waiting [OF m assms(2)])
  then have nf: "\<not> fBreakpointSignalled s" by (simp add: start_session_def)
  from signal_at_attach [OF nf assms(4) assms(1)] obtain s' effs st where
    h: "handle_event opts ans s ev = Inr (s', effs, st)" and flag: "fBreakpointSignalled s'"
    and once: "count_list effs (SetEvent ?h) = 1" "count_list effs (CloseHandle ?h) = 1"
    by blast
  have before: "count_list tr (SetEvent ?h) = 0 \<and> count_list tr (CloseHandle ?h) = 0"
    using no_signal_in_loop [of "start_session g" pre ?h opts] assms(2) fpre m by simp
  have after: "count_list (snd (snd (main_loop opts s' post))) (SetEvent ?h) = 0
      \<and> count_list (snd (snd (main_loop opts s' post))) (CloseHandle ?h) = 0"
    using no_signal_in_loop [of s' post ?h opts] flag fpost by simp
  have run: "\<not> fFinished s" using main_loop_Waiting_running [OF m] by simp
  have "snd (snd (DebugMainLoop opts g (pre @ Notified ev ans # post)))
      = tr @ effs @ ContinueDebugEvent (dwProcessId ev) (dwThreadId ev) st
           # snd (snd (main_loop opts s' post))"
    using main_loop_append [OF m, of "Notified ev ans # post"] h run
    by (simp add: DebugMainLoop_def split: prod.splits)
  with before after once h show ?thesis by simp
qed

theorem attach_signal_once_witness:
  "hEvent quiet \<noteq> NULL
   \<and> no_first_chance_breakpoint [Notified process_1_created all_ok, Notified thread_2_created all_ok]
   \<and> first_chance_breakpoint attach_breakpoint
   \<and> no_file_handle (hEvent quiet)
       ([Notified process_1_created all_ok, Notified thread_2_created all_ok]
        @ [Notified attach_breakpoint all_ok, Notified crash_of_thread_1 all_ok])
   \<and> count_list (snd (snd (DebugMainLoop quiet []
         ([Notified process_1_created all_ok, Notified thread_2_created all_ok]
          @ Notified attach_breakpoint all_ok
          # [Notified attach_breakpoint all_ok, Notified crash_of_thread_1 all_ok]))))
       (SetEvent 7) = 1
   \<and> count_list (snd (snd (DebugMainLoop quiet []
         ([Notified process_1_created all_ok, Notified thread_2_created all_ok]
          @ Notified attach_breakpoint all_ok
          # [Notified attach_breakpoint all_ok, Notified crash_of_thread_1 all_ok]))))
       (CloseHandle 7) = 1"
proof -
  let ?pre = "[Notified process_1_created all_ok, Notified thread_2_created all_ok]"
  let ?post = "[Notified attach_breakpoint all_ok, Notified crash_of_thread_1 all_ok]"
  have 1: "hEvent quiet \<noteq> NULL" by (simp add: quiet_def)
  have 2: "no_first_chance_breakpoint ?pre"
    by (simp add: first_chance_breakpoint_def process_1_created_def thread_2_created_def)
  have 3: "first_chance_breakpoint attach_breakpoint"
    by (simp add: first_chance_breakpoint_def attach_breakpoint_def)
  have 4: "no_file_handle (hEvent quiet) (?pre @ ?post)"
    by (simp add: file_handle_def session_defs)
  have 5: "hEvent quiet = 7" by (simp add: quiet_def)
  from attach_signal_once [OF 1 2 two_threads_reached 3 4, of all_ok] 1 2 3 4 show ?thesis
    unfolding 5 by blast
qed

section \<open>The registry stays a map\<close>

lemma keys_map_store: "(a, b) \<in> set (map_store k v m) \<Longrightarrow> a = k \<or> (a, b) \<in> set m"
  by (induction m) (auto split: if_splits)

lemma key_ordered_map_store: "key_ordered m \<Longrightarrow> key_ordered (map_store k v m)"
proof (induction m)
  case Nil
  then show ?case by (simp add: key_ordered_def)
next
  case (Cons node m)
  then have "key_ordered m" by (simp add: key_ordered_def)
  with Cons show ?case
    by (fastforce simp: key_ordered_def dest: keys_map_store)
qed

lemma key_ordered_map_subscript: "key_ordered m \<Longrightarrow> key_ordered (map_subscript d k m)"
  by (simp add: map_subscript_def key_ordered_map_store)

lemma key_ordered_map_erase: "key_ordered m \<Longrightarrow> key_ordered (map_erase k m)"
  by (induction m) (auto simp: key_ordered_def map_erase_def)

lemma key_ordered_store_hThread: "key_ordered ts \<Longrightarrow> key_ordered (store_hThread tid h ts)"
  by (simp add: store_hThread_def Let_def key_ordered_map_store key_ordered_map_subscript)

lemma key_ordered_distinct: "key_ordered m \<Longrightarrow> distinct (map fst m)"
  by (simp add: key_ordered_def strict_sorted_iff)

lemma records_map_store:
  "list_all P m \<Longrightarrow> P (k, v) \<Longrightarrow> list_all P (map_store k v m)"
  by (induction m) auto

lemma records_map_erase: "list_all P m \<Longrightarrow> list_all P (map_erase k m)"
  by (induction m) (auto simp: map_erase_def)

lemma record_in_registry:
  "list_all (\<lambda>node. key_ordered (Threads (snd node))) g \<Longrightarrow>
   key_ordered (Threads (map_at new_PROCESS_INFO pid g))"
  by (induction g) (auto simp: map_at_def new_PROCESS_INFO_def key_ordered_def)

lemma registry_ordered_store:
  assumes "registry_ordered g" and "key_ordered (Threads pinfo)"
  shows "registry_ordered (map_store pid pinfo g)"
  using assms by (simp add: registry_ordered_def key_ordered_map_store records_map_store)

lemma registry_ordered_subscript:
  assumes "registry_ordered g"
  shows "registry_ordered (map_subscript new_PROCESS_INFO pid g)"
  unfolding map_subscript_def
  using assms record_in_registry [of g pid]
  by (intro registry_ordered_store) (simp_all add: registry_ordered_def)

lemma registry_ordered_erase: "registry_ordered g \<Longrightarrow> registry_ordered (map_erase pid g)"
  by (simp add: registry_ordered_def key_ordered_map_erase records_map_erase)

lemma registry_ordered_record:
  "registry_ordered g \<Longrightarrow> key_ordered (Threads (map_at new_PROCESS_INFO pid g))"
  by (simp add: registry_ordered_def record_in_registry)

lemma handle_event_ordered:
  assumes "registry_ordered (g_Processes s)" and "handle_event opts ans s ev = Inr (s', effs, st)"
  shows "registry_ordered (g_Processes s')"
proof -
  note keep = registry_ordered_subscript [OF assms(1)] registry_ordered_store
    registry_ordered_erase registry_ordered_record key_ordered_store_hThread
    key_ordered_map_erase key_ordered_map_subscript
  show ?thesis
  proof (cases "u ev")
    case (Exception code fc)
    then show ?thesis using assms
      by (auto simp: handle_event_def on_exception_def capture_stage_def first_chance_stage_def
          Let_def intro!: keep split: if_splits prod.splits)
  next
    case (CreateThread h)
    then show ?thesis using assms(2)
      by (auto simp: handle_event_def on_create_thread_def Let_def intro!: keep)
  next
    case (CreateProcessInfo hFile hProc hThr base)
    then show ?thesis using assms(2)
      by (auto simp: handle_event_def on_create_process_def Let_def intro!: keep split: if_splits)
  next
    case (ExitThread code)
    then show ?thesis using assms(2)
      by (auto simp: handle_event_def on_exit_thread_def Let_def intro!: keep)
  next
    case (ExitProcess code)
    then show ?thesis using assms(2)
      by (auto simp: handle_event_def on_exit_process_def Let_def intro!: keep)
  next
    case (LoadDll hFile base)
    then show ?thesis using assms(2)
      by (auto simp: handle_event_def on_load_dll_def Let_def intro!: keep)
  next
    case (UnloadDll base)
    then show ?thesis using assms(2)
      by (auto simp: handle_event_def on_unload_dll_def Let_def intro!: keep)
  next
    case (DebugString a w n)
    then show ?thesis using assms(2)
      by (auto simp: handle_event_def on_debug_string_def Let_def intro!: keep split: if_splits sum.splits)
  next
    case Rip
    then show ?thesis using assms by (auto simp: handle_event_def)
  next
    case (Unrecognized c)
    then show ?thesis using assms by (auto simp: handle_event_def)
  qed
qed

section \<open>The registry after the loop has handled a list of notifications\<close>

lemma handled_state_ordered:
  assumes "registry_ordered (g_Processes s)"
  shows "registry_ordered (g_Processes (state_after (handle_event opts ans s ev)))"
proof (cases "handle_event opts ans s ev")
  case (Inr r)
  then obtain s' effs st where h: "handle_event opts ans s ev = Inr (s', effs, st)"
    by (cases r) auto
  from handle_event_ordered [OF assms h] h show ?thesis by (simp add: state_after_def)
next
  case (Inl r)
  then obtain f s' effs where h: "handle_event opts ans s ev = Inl (f, s', effs)"
    by (cases r) auto
  note keep = registry_ordered_subscript [OF assms] registry_ordered_store
    registry_ordered_record key_ordered_store_hThread
  have "registry_ordered (g_Processes s')"
    using h
    by (cases "u ev")
       (auto simp: handle_event_def on_create_process_def on_debug_string_def Let_def
          intro!: keep split: if_splits sum.splits)
  with h show ?thesis by (simp add: state_after_def)
qed

lemma process_live_snoc:
  "process_live (evs @ [ev]) pid =
     (if exits_process ev pid then False
      else if creates_process ev pid then True else process_live evs pid)"
  by (simp add: process_live_def)

lemma thread_live_snoc:
  "thread_live (evs @ [ev]) pid tid =
     (if exits_thread ev pid tid then False
      else if creates_thread ev pid tid then True else thread_live evs pid tid)"
  by (simp add: thread_live_def)

lemma disciplined_after_snoc:
  "disciplined_after earlier (evs @ [ev])
   = (disciplined_after earlier evs \<and> in_discipline (earlier @ evs) ev)"
  by (induction evs arbitrary: earlier) auto

lemma disciplined_snoc:
  "disciplined (evs @ [ev]) = (disciplined evs \<and> in_discipline evs ev)"
  by (simp add: disciplined_def disciplined_after_snoc)

lemma populated_after_snoc:
  "populated_after earlier (evs @ [ev])
   = (populated_after earlier evs \<and> some_process_live (earlier @ evs @ [ev]))"
  by (induction evs arbitrary: earlier) auto

lemma stays_populated_snoc:
  "stays_populated (evs @ [ev]) = (stays_populated evs \<and> some_process_live (evs @ [ev]))"
  by (simp add: stays_populated_def populated_after_snoc)

lemma map_of_store_hThread:
  "map_of (store_hThread tid h ts) tid' =
     (if tid' = tid then Some ((map_at new_THREAD_INFO tid ts)\<lparr>hThread := h\<rparr>)
      else map_of ts tid')"
  by (simp add: store_hThread_def Let_def map_of_map_store map_of_map_subscript
      map_at_map_subscript)

text \<open>The registry that each of the four lifecycle handlers leaves.\<close>

lemma registry_after_create_thread:
  assumes "u ev = CreateThread h"
    and "map_of (g_Processes s) (dwProcessId ev) = Some pinfo"
  shows "map_of (g_Processes (state_after (handle_event opts ans s ev))) pid =
     (if pid = dwProcessId ev
      then Some (pinfo\<lparr>Threads := store_hThread (dwThreadId ev) h (Threads pinfo)\<rparr>)
      else map_of (g_Processes s) pid)"
  using assms
  by (auto simp: handle_event_def on_create_thread_def Let_def map_of_map_store
      map_of_map_subscript map_at_map_subscript map_at_present state_after_def)

lemma registry_after_create_process:
  assumes "u ev = CreateProcessInfo hFile hProc hThr base"
  shows "map_of (g_Processes (state_after (handle_event opts ans s ev))) pid =
     (if pid = dwProcessId ev
      then Some ((map_at new_PROCESS_INFO (dwProcessId ev) (g_Processes s))
                  \<lparr>hProcess := hProc,
                   Threads := store_hThread (dwThreadId ev) hThr
                     (Threads (map_at new_PROCESS_INFO (dwProcessId ev) (g_Processes s)))\<rparr>)
      else map_of (g_Processes s) pid)"
  using assms
  by (auto simp: handle_event_def on_create_process_def Let_def map_of_map_store
      map_of_map_subscript map_at_map_subscript map_at_map_store state_after_def
      split: if_splits)

lemma registry_after_exit_thread:
  assumes "u ev = ExitThread code"
    and "map_of (g_Processes s) (dwProcessId ev) = Some pinfo"
  shows "map_of (g_Processes (state_after (handle_event opts ans s ev))) pid =
     (if pid = dwProcessId ev
      then Some (pinfo\<lparr>Threads := map_erase (dwThreadId ev) (Threads pinfo)\<rparr>)
      else map_of (g_Processes s) pid)"
  using assms
  by (auto simp: handle_event_def on_exit_thread_def Let_def map_of_map_store
      map_of_map_subscript map_at_map_subscript map_at_present state_after_def)

lemma registry_after_exit_process:
  assumes "u ev = ExitProcess code"
  shows "map_of (g_Processes (state_after (handle_event opts ans s ev))) pid =
     (if pid = dwProcessId ev then None else map_of (g_Processes s) pid)"
  using assms
  by (auto simp: handle_event_def on_exit_process_def Let_def map_of_map_store
      map_of_map_subscript map_of_map_erase state_after_def)

lemma lifecycle_handler_returns:
  assumes "lifecycle ev" and "InitializeSym_ok ans"
  shows "\<exists>s' effs st. handle_event opts ans s ev = Inr (s', effs, st)"
  using assms
  by (cases "u ev")
     (auto simp: lifecycle_def handle_event_def on_create_process_def Let_def
        intro: prod_cases3)

lemma tracks_empty: "tracks [] []"
  by (simp add: tracks_def process_live_def thread_live_def)

lemma tracks_registered:
  assumes "tracks g evs" and "process_live evs pid"
  shows "\<exists>pinfo. map_of g pid = Some pinfo"
proof -
  from assms have "map_of g pid \<noteq> None"
    unfolding tracks_def by blast
  then show ?thesis by auto
qed

lemma tracks_unregistered:
  assumes "tracks g evs" and "map_of g pid = None"
  shows "\<not> thread_live evs pid tid"
proof
  assume "thread_live evs pid tid"
  with assms(1) have "process_live evs pid"
    unfolding tracks_def by blast
  with tracks_registered [OF assms(1)] assms(2) show False by fastforce
qed

lemma tracks_populated:
  assumes "tracks g evs" and "some_process_live evs"
  shows "g \<noteq> []"
proof -
  from assms(2) obtain pid where "process_live evs pid"
    by (auto simp: some_process_live_def list_ex_iff)
  from tracks_registered [OF assms(1) this] show ?thesis by auto
qed

lemma tracks_step:
  assumes inv: "tracks (g_Processes s) evs" and "lifecycle ev" and disc: "in_discipline evs ev"
  shows "tracks (g_Processes (state_after (handle_event opts ans s ev))) (evs @ [ev])"
proof (cases "u ev")
  case (CreateThread hnd)
  with disc have "process_live evs (dwProcessId ev)" by (simp add: in_discipline_def)
  with tracks_registered [OF inv] obtain pinfo where
    reg: "map_of (g_Processes s) (dwProcessId ev) = Some pinfo"
    by blast
  show ?thesis
    using inv reg CreateThread
    unfolding tracks_def registry_after_create_thread [OF CreateThread reg]
      process_live_snoc thread_live_snoc
    by (auto simp: creates_process_def exits_process_def creates_thread_def exits_thread_def
        map_of_store_hThread)
next
  case (CreateProcessInfo hFile hProc hThr base)
  show ?thesis
    using inv CreateProcessInfo tracks_unregistered [OF inv, of "dwProcessId ev"]
    unfolding tracks_def registry_after_create_process [OF CreateProcessInfo]
      process_live_snoc thread_live_snoc
    by (auto simp: creates_process_def exits_process_def creates_thread_def exits_thread_def
        map_of_store_hThread map_at_def new_PROCESS_INFO_def split: option.splits)
next
  case (ExitThread code)
  with disc have "process_live evs (dwProcessId ev)" by (simp add: in_discipline_def)
  with tracks_registered [OF inv] obtain pinfo where
    reg: "map_of (g_Processes s) (dwProcessId ev) = Some pinfo"
    by blast
  show ?thesis
    using inv reg ExitThread
    unfolding tracks_def registry_after_exit_thread [OF ExitThread reg]
      process_live_snoc thread_live_snoc
    by (auto simp: creates_process_def exits_process_def creates_thread_def exits_thread_def
        map_of_map_erase)
next
  case (ExitProcess code)
  show ?thesis
    using inv ExitProcess
    unfolding tracks_def registry_after_exit_process [OF ExitProcess]
      process_live_snoc thread_live_snoc
    by (auto simp: creates_process_def exits_process_def creates_thread_def exits_thread_def)
qed (use assms in \<open>simp_all add: lifecycle_def\<close>)

lemma delivered_snoc: "delivered (ns @ [n]) = delivered ns @ [Notified (fst n) (snd n)]"
  by (simp add: delivered_def)

lemma last_step_state:
  "\<not> fFinished s \<Longrightarrow>
   fst (snd (main_loop opts s [Notified ev ans])) = state_after (handle_event opts ans s ev)"
  by (auto simp: state_after_def split: sum.splits prod.splits if_splits)

lemma loop_handles_all:
  assumes "g_Processes s0 = []" and "\<not> fFinished s0"
  shows "list_all (\<lambda>n. lifecycle (fst n) \<and> InitializeSym_ok (snd n)) ns \<Longrightarrow>
         disciplined (map fst ns) \<Longrightarrow> stays_populated (map fst ns) \<Longrightarrow>
         \<exists>s tr. main_loop opts s0 (delivered ns) = (Waiting, s, tr)
           \<and> tracks (g_Processes s) (map fst ns) \<and> registry_ordered (g_Processes s)"
proof (induction ns rule: rev_induct)
  case Nil
  then show ?case using assms
    by (simp add: delivered_def tracks_empty registry_ordered_def key_ordered_def)
next
  case (snoc n ns)
  from snoc.prems have all: "list_all (\<lambda>n. lifecycle (fst n) \<and> InitializeSym_ok (snd n)) ns"
    and n: "lifecycle (fst n)" "InitializeSym_ok (snd n)"
    and disc: "disciplined (map fst ns)" "in_discipline (map fst ns) (fst n)"
    and pop: "stays_populated (map fst ns)" "some_process_live (map fst ns @ [fst n])"
    by (simp_all add: disciplined_snoc stays_populated_snoc)
  from snoc.IH [OF all disc(1) pop(1)] obtain s tr where
    m: "main_loop opts s0 (delivered ns) = (Waiting, s, tr)"
    and inv: "tracks (g_Processes s) (map fst ns)"
    and ord: "registry_ordered (g_Processes s)"
    by blast
  from lifecycle_handler_returns [OF n] obtain s' effs st where
    h: "handle_event opts (snd n) s (fst n) = Inr (s', effs, st)"
    by blast
  have s': "state_after (handle_event opts (snd n) s (fst n)) = s'"
    using h by (simp add: state_after_def)
  have inv': "tracks (g_Processes s') (map fst ns @ [fst n])"
    using tracks_step [OF inv n(1) disc(2), of opts "snd n"] s' by simp
  have ord': "registry_ordered (g_Processes s')"
    by (rule handle_event_ordered [OF ord h])
  have "g_Processes s' \<noteq> []" by (rule tracks_populated [OF inv' pop(2)])
  moreover have "\<not> fFinished s" using main_loop_Waiting_running [OF m] by simp
  ultimately have "\<not> fFinished s'" using finished_iff [OF _ h] by simp
  from keeps_waiting [OF m h this] inv' ord' show ?case
    by (simp add: delivered_snoc)
qed


lemma tracks_stated:
  assumes "tracks g evs"
  shows "(\<forall>pid. (pid \<in> fst ` set g) = process_live evs pid)
     \<and> (\<forall>pid pinfo tid. map_of g pid = Some pinfo
           \<longrightarrow> (tid \<in> fst ` set (Threads pinfo)) = thread_live evs pid tid)"
proof -
  have keys: "\<And>(m :: (DWORD \<times> 'v) list) k. (k \<in> fst ` set m) = (map_of m k \<noteq> None)"
    by (simp add: map_of_eq_None_iff)
  from assms show ?thesis
    unfolding tracks_def keys by blast
qed

text \<open>
  Claim C5, as amended. Let \<open>DebugMainLoop\<close> start on an empty registry and receive
  process-create, thread-create, thread-exit and process-exit notifications in which
  every thread-create, thread-exit and process-exit names a process that is live when
  it arrives. Let some process be live after each notification before the last, and
  let \<open>InitializeSym\<close> succeed during each of these. Then the loop is still waiting
  when the last notification arrives, and after it, whether the loop goes on waiting,
  returns or the program ends, the registry holds a record for exactly the processes
  created and not yet exited, and each record holds exactly the threads of its process
  created and not yet exited; registry and thread lists are maps, with one node for
  a key.
\<close>

theorem registry_after_the_loop:
  assumes "list_all (\<lambda>n. lifecycle (fst n)) ns" and "disciplined (map fst ns)"
    and "stays_populated (map fst (butlast ns))"
    and "list_all (\<lambda>n. InitializeSym_ok (snd n)) (butlast ns)"
  shows "fst (DebugMainLoop opts [] (delivered (butlast ns))) = Waiting
     \<and> (\<exists>out s tr. DebugMainLoop opts [] (delivered ns) = (out, s, tr)
          \<and> registry_ordered (g_Processes s)
          \<and> (\<forall>pid. (pid \<in> fst ` set (g_Processes s)) = process_live (map fst ns) pid)
          \<and> (\<forall>pid pinfo tid. map_of (g_Processes s) pid = Some pinfo
                \<longrightarrow> (tid \<in> fst ` set (Threads pinfo)) = thread_live (map fst ns) pid tid))"
proof (cases ns rule: rev_cases)
  case Nil
  have "DebugMainLoop opts [] (delivered []) = (Waiting, start_session [], [])"
    by (simp add: DebugMainLoop_def delivered_def start_session_def)
  moreover have "registry_ordered (g_Processes (start_session []))"
    by (simp add: start_session_def registry_ordered_def key_ordered_def)
  moreover have "tracks (g_Processes (start_session [])) (map fst ([] :: (DEBUG_EVENT \<times> answers) list))"
    by (simp add: start_session_def tracks_empty)
  ultimately show ?thesis using Nil tracks_stated by fastforce
next
  case (snoc ms n)
  let ?s0 = "start_session []"
  have s0: "g_Processes ?s0 = []" "\<not> fFinished ?s0" by (simp_all add: start_session_def)
  from assms snoc have all: "list_all (\<lambda>n. lifecycle (fst n) \<and> InitializeSym_ok (snd n)) ms"
    and n: "lifecycle (fst n)"
    and disc: "disciplined (map fst ms)" "in_discipline (map fst ms) (fst n)"
    and pop: "stays_populated (map fst ms)"
    by (simp_all add: disciplined_snoc list_all_iff)
  from loop_handles_all [OF s0 all disc(1) pop] obtain s tr where
    m: "main_loop opts ?s0 (delivered ms) = (Waiting, s, tr)"
    and inv: "tracks (g_Processes s) (map fst ms)"
    and ord: "registry_ordered (g_Processes s)"
    by blast
  let ?N = "Notified (fst n) (snd n)"
  let ?s' = "state_after (handle_event opts (snd n) s (fst n))"
  have run: "\<not> fFinished s" using main_loop_Waiting_running [OF m] by simp
  obtain out s2 later where l: "main_loop opts s [?N] = (out, s2, later)"
    by (rule prod_cases3)
  from last_step_state [OF run, of opts "fst n" "snd n"] have "s2 = ?s'"
    unfolding l by (simp only: fst_conv snd_conv)
  with main_loop_append [OF m, of "[?N]", unfolded l]
  have "main_loop opts ?s0 (delivered ms @ [?N]) = (out, ?s', tr @ later)"
    by (simp only: prod.case)
  then have whole: "DebugMainLoop opts [] (delivered ns) = (out, ?s', tr @ later)"
    by (simp only: DebugMainLoop_def snoc delivered_snoc)
  have waits: "fst (DebugMainLoop opts [] (delivered (butlast ns))) = Waiting"
    using m by (simp add: DebugMainLoop_def snoc)
  have "tracks (g_Processes ?s') (map fst ns)"
    using tracks_step [OF inv n disc(2)] snoc by simp
  note stated = tracks_stated [OF this]
  show ?thesis
  proof (intro conjI exI)
    show "fst (DebugMainLoop opts [] (delivered (butlast ns))) = Waiting" by (rule waits)
    show "DebugMainLoop opts [] (delivered ns) = (out, ?s', tr @ later)" by (rule whole)
    show "registry_ordered (g_Processes ?s')" by (rule handled_state_ordered [OF ord])
    show "\<forall>pid. (pid \<in> fst ` set (g_Processes ?s')) = process_live (map fst ns) pid"
      by (rule stated [THEN conjunct1])
    show "\<forall>pid pinfo tid. map_of (g_Processes ?s') pid = Some pinfo
           \<longrightarrow> (tid \<in> fst ` set (Threads pinfo)) = thread_live (map fst ns) pid tid"
      by (rule stated [THEN conjunct2])
  qed
qed

theorem registry_after_the_loop_witness:
  "list_all (\<lambda>n. lifecycle (fst n))
     [(process_1_created, all_ok), (thread_2_created, all_ok), (thread_1_exited, all_ok)]
   \<and> disciplined (map fst
       [(process_1_created, all_ok), (thread_2_created, all_ok), (thread_1_exited, all_ok)])
   \<and> stays_populated (map fst (butlast
       [(process_1_created, all_ok), (thread_2_created, all_ok), (thread_1_exited, all_ok)]))
   \<and> list_all (\<lambda>n. InitializeSym_ok (snd n)) (butlast
       [(process_1_created, all_ok), (thread_2_created, all_ok), (thread_1_exited, all_ok)])
   \<and> fst (snd (DebugMainLoop quiet [] (delivered
       [(process_1_created, all_ok), (thread_2_created, all_ok), (thread_1_exited, all_ok)])))
     = two_threads\<lparr>g_Processes := [(1, \<lparr>hProcess = 100, Threads = [(2, \<lparr>hThread = 22\<rparr>)]\<rparr>)]\<rparr>
   \<and> process_live (map fst
       [(process_1_created, all_ok), (thread_2_created, all_ok), (thread_1_exited, all_ok)]) 1
   \<and> thread_live (map fst
       [(process_1_created, all_ok), (thread_2_created, all_ok), (thread_1_exited, all_ok)]) 1 2
   \<and> \<not> thread_live (map fst
       [(process_1_created, all_ok), (thread_2_created, all_ok), (thread_1_exited, all_ok)]) 1 1"
proof -
  let ?ns = "[(process_1_created, all_ok), (thread_2_created, all_ok), (thread_1_exited, all_ok)]"
  let ?s = "two_threads\<lparr>g_Processes := [(1, \<lparr>hProcess = 100, Threads = [(2, \<lparr>hThread = 22\<rparr>)]\<rparr>)]\<rparr>"
  have 1: "list_all (\<lambda>n. lifecycle (fst n)) ?ns"
    by (simp add: lifecycle_def session_defs)
  have 2: "disciplined (map fst ?ns)"
    by (simp add: disciplined_def in_discipline_def process_live_def creates_process_def
        exits_process_def session_defs)
  have 3: "stays_populated (map fst (butlast ?ns))"
    by (simp add: stays_populated_def some_process_live_def process_live_def
        creates_process_def exits_process_def session_defs)
  have 4: "list_all (\<lambda>n. InitializeSym_ok (snd n)) (butlast ?ns)"
    by (simp add: all_ok_def)
  have 5: "fst (snd (DebugMainLoop quiet [] (delivered ?ns))) = ?s"
    by (simp add: delivered_def run_defs session_defs two_threads_def)
  from registry_after_the_loop [OF 1 2 3 4, of quiet, THEN conjunct2] obtain out s tr where
    r: "DebugMainLoop quiet [] (delivered ?ns) = (out, s, tr)"
    and p: "\<forall>pid. (pid \<in> fst ` set (g_Processes s)) = process_live (map fst ?ns) pid"
    and t: "\<forall>pid pinfo tid. map_of (g_Processes s) pid = Some pinfo
           \<longrightarrow> (tid \<in> fst ` set (Threads pinfo)) = thread_live (map fst ?ns) pid tid"
    by (elim exE conjE)
  from r 5 have s: "s = ?s" by (simp only: fst_conv snd_conv)
  have reg: "g_Processes ?s = [(1, \<lparr>hProcess = 100, Threads = [(2, \<lparr>hThread = 22\<rparr>)]\<rparr>)]"
    by simp
  have 6: "process_live (map fst ?ns) 1"
    using p [THEN spec, of 1] unfolding s reg by simp
  have "map_of (g_Processes ?s) 1 = Some \<lparr>hProcess = 100, Threads = [(2, \<lparr>hThread = 22\<rparr>)]\<rparr>"
    unfolding reg by simp
  note live = t [unfolded s, rule_format, OF this]
  have 7: "thread_live (map fst ?ns) 1 2" and 8: "\<not> thread_live (map fst ?ns) 1 1"
    using live [of 2] live [of 1] by simp_all
  show ?thesis
    by (intro conjI) (rule 1 2 3 4 5 6 7 8)+
qed

text \<open>
  The claim as stated fails for notifications that the loop does not handle to the
  end. Once the exit of process 1 has emptied the registry the loop has returned:
  process 2, created after it, is live and not registered. And when \<open>InitializeSym\<close>
  fails for process 1 the program ends: thread 2, created after it, is live and not
  registered.
\<close>

theorem loop_stops_before_the_end_counterexample:
  "list_all (\<lambda>n. lifecycle (fst n))
     [(process_1_created, all_ok), (process_1_exited, all_ok), (process_2_created, all_ok)]
   \<and> disciplined (map fst
       [(process_1_created, all_ok), (process_1_exited, all_ok), (process_2_created, all_ok)])
   \<and> DebugMainLoop quiet [] (delivered
       [(process_1_created, all_ok), (process_1_exited, all_ok), (process_2_created, all_ok)])
     = (Returned True,
        (start_session []) \<lparr>fFinished := True\<rparr>,
        [SymSetOptions 50, InitializeSym 100, SymRegisterCallback64 100,
         SymLoadModuleEx 100 5 4194304, CloseHandle 5, ContinueDebugEvent 1 1 DBG_CONTINUE,
         SymCleanup 100, ContinueDebugEvent 1 1 DBG_CONTINUE])
   \<and> process_live (map fst
       [(process_1_created, all_ok), (process_1_exited, all_ok), (process_2_created, all_ok)]) 2
   \<and> list_all (\<lambda>n. lifecycle (fst n))
       [(process_1_created, all_ok\<lparr>InitializeSym_ok := False\<rparr>), (thread_2_created, all_ok)]
   \<and> disciplined (map fst
       [(process_1_created, all_ok\<lparr>InitializeSym_ok := False\<rparr>), (thread_2_created, all_ok)])
   \<and> DebugMainLoop quiet [] (delivered
       [(process_1_created, all_ok\<lparr>InitializeSym_ok := False\<rparr>), (thread_2_created, all_ok)])
     = (Ended ExitFailure,
        (start_session [])
          \<lparr>g_Processes := [(1, \<lparr>hProcess = 100, Threads = [(1, \<lparr>hThread = 11\<rparr>)]\<rparr>)],
           pThreadInfo := NodeOf 1 1\<rparr>,
        [SymSetOptions 50, InitializeSym 100,
         OutputDebug (''error: SymInitialize failed: 0x%08lx'' @ LF)])
   \<and> thread_live (map fst
       [(process_1_created, all_ok\<lparr>InitializeSym_ok := False\<rparr>), (thread_2_created, all_ok)]) 1 2"
  by (simp add: delivered_def run_defs session_defs lifecycle_def disciplined_def
      in_discipline_def process_live_def thread_live_def creates_process_def exits_process_def
      creates_thread_def exits_thread_def)

end
